theory Spec2Isabelle
  imports Complex_Main
begin

section \<open>The raycaster of examples/raycaster/raycaster/raycaster.py\<close>

text \<open>
  The class \<open>RayCaster\<close> is embedded as a record of its attributes and one function
  per method, each taking the object and returning the updated one. An exception is a
  value \<open>Inl e\<close> of the result type.

  Numbers. Python integers and numpy's index integers are \<open>int\<close>; the 16-bit
  buffers \<open>_pos_int\<close> and \<open>_steps\<close> wrap (\<open>wrap16\<close>). A floating-point number is a
  value of \<open>ieee\<close>: a finite number, one of the two infinities, or NaN. Finite
  arithmetic is exact (a finite value is a \<open>real\<close>): rounding, overflow to an infinity
  and the sign of zero are not modelled. The infinities and NaN are, since the source
  produces them on purpose (\<open>1 / 0\<close> under \<open>errstate(divide="ignore")\<close>) and branches
  on comparisons with them.
\<close>

subsection \<open>Exceptions\<close>

datatype py_error = IndexError | ValueError | ZeroDivisionError | OverflowError

type_synonym 'a result = "py_error + 'a"

definition bind :: "'a result \<Rightarrow> ('a \<Rightarrow> 'b result) \<Rightarrow> 'b result" where
  "bind m f = (case m of Inl e \<Rightarrow> Inl e | Inr x \<Rightarrow> f x)"

fun mapM :: "('a \<Rightarrow> 'b result) \<Rightarrow> 'a list \<Rightarrow> 'b list result" where
  "mapM f [] = Inr []"
| "mapM f (x # xs) = bind (f x) (\<lambda>y. bind (mapM f xs) (\<lambda>ys. Inr (y # ys)))"

subsection \<open>Floating-point values\<close>

datatype ieee = Fin real | PInf | NInf | NaN

fun ieee_neg :: "ieee \<Rightarrow> ieee" where
  "ieee_neg (Fin a) = Fin (- a)"
| "ieee_neg PInf = NInf"
| "ieee_neg NInf = PInf"
| "ieee_neg NaN = NaN"

fun ieee_abs :: "ieee \<Rightarrow> ieee" where
  "ieee_abs (Fin a) = Fin \<bar>a\<bar>"
| "ieee_abs PInf = PInf"
| "ieee_abs NInf = PInf"
| "ieee_abs NaN = NaN"

fun ieee_add :: "ieee \<Rightarrow> ieee \<Rightarrow> ieee" where
  "ieee_add (Fin a) (Fin b) = Fin (a + b)"
| "ieee_add NaN _ = NaN"
| "ieee_add _ NaN = NaN"
| "ieee_add PInf NInf = NaN"
| "ieee_add NInf PInf = NaN"
| "ieee_add PInf _ = PInf"
| "ieee_add _ PInf = PInf"
| "ieee_add NInf _ = NInf"
| "ieee_add _ NInf = NInf"

definition ieee_sub :: "ieee \<Rightarrow> ieee \<Rightarrow> ieee" where
  "ieee_sub x y = ieee_add x (ieee_neg y)"

text \<open>The sign of an infinity times a finite factor; zero times an infinity is NaN.\<close>

definition inf_of_sign :: "real \<Rightarrow> ieee" where
  "inf_of_sign a = (if a = 0 then NaN else if 0 < a then PInf else NInf)"

fun ieee_mul :: "ieee \<Rightarrow> ieee \<Rightarrow> ieee" where
  "ieee_mul (Fin a) (Fin b) = Fin (a * b)"
| "ieee_mul NaN _ = NaN"
| "ieee_mul _ NaN = NaN"
| "ieee_mul (Fin a) PInf = inf_of_sign a"
| "ieee_mul (Fin a) NInf = inf_of_sign (- a)"
| "ieee_mul PInf (Fin b) = inf_of_sign b"
| "ieee_mul NInf (Fin b) = inf_of_sign (- b)"
| "ieee_mul PInf PInf = PInf"
| "ieee_mul NInf NInf = PInf"
| "ieee_mul PInf NInf = NInf"
| "ieee_mul NInf PInf = NInf"

text \<open>
  Division as numpy does it on arrays and on its scalars: dividing by zero is no
  exception (a warning at most) and gives an infinity, or NaN for \<open>0 / 0\<close>.
\<close>

fun ieee_div :: "ieee \<Rightarrow> ieee \<Rightarrow> ieee" where
  "ieee_div (Fin a) (Fin b) = (if b = 0 then inf_of_sign a else Fin (a / b))"
| "ieee_div NaN _ = NaN"
| "ieee_div _ NaN = NaN"
| "ieee_div (Fin a) PInf = Fin 0"
| "ieee_div (Fin a) NInf = Fin 0"
| "ieee_div PInf (Fin b) = (if 0 \<le> b then PInf else NInf)"
| "ieee_div NInf (Fin b) = (if 0 \<le> b then NInf else PInf)"
| "ieee_div _ _ = NaN"

text \<open>\<open>x < y\<close>: false as soon as one side is NaN.\<close>

fun ieee_lt :: "ieee \<Rightarrow> ieee \<Rightarrow> bool" where
  "ieee_lt (Fin a) (Fin b) = (a < b)"
| "ieee_lt NaN _ = False"
| "ieee_lt _ NaN = False"
| "ieee_lt NInf NInf = False"
| "ieee_lt NInf _ = True"
| "ieee_lt _ NInf = False"
| "ieee_lt PInf _ = False"
| "ieee_lt _ PInf = True"

text \<open>\<open>x % 1\<close> (numpy's floored remainder): the fractional part; NaN off the finite numbers.\<close>

fun ieee_mod1 :: "ieee \<Rightarrow> ieee" where
  "ieee_mod1 (Fin a) = Fin (frac a)"
| "ieee_mod1 _ = NaN"

text \<open>Truncation toward zero, as \<open>int(x)\<close> and \<open>astype(int)\<close> convert a finite float.\<close>

definition trunc :: "real \<Rightarrow> int" where
  "trunc x = (if 0 \<le> x then \<lfloor>x\<rfloor> else \<lceil>x\<rceil>)"

text \<open>Python's \<open>int(x)\<close>: OverflowError on an infinity, ValueError on NaN.\<close>

fun py_int :: "ieee \<Rightarrow> int result" where
  "py_int (Fin a) = Inr (trunc a)"
| "py_int PInf = Inl OverflowError"
| "py_int NInf = Inl OverflowError"
| "py_int NaN = Inl ValueError"

text \<open>
  \<open>a.astype(int)\<close> on one element. numpy converts an infinity or NaN to the least
  64-bit integer (with a warning); in \<open>cast_ray\<close> every such array is used at once as an
  index array into a texture, which rejects that index, so the conversion is given the
  IndexError of the indexing that follows it.
\<close>

fun astype_int :: "ieee \<Rightarrow> int result" where
  "astype_int (Fin a) = Inr (trunc a)"
| "astype_int _ = Inl IndexError"

subsection \<open>Machine integers, indexing and slices\<close>

definition wrap16 :: "int \<Rightarrow> int" where
  "wrap16 i = (i + 32768) mod 65536 - 32768"

text \<open>
  \<open>ray_pos[:] = camera_pos\<close> stores floats into an int16 buffer: the fraction is cut
  off toward zero.
\<close>

definition to_int16 :: "real \<Rightarrow> int" where
  "to_int16 x = wrap16 (trunc x)"

text \<open>An integer index into a sequence: a negative one counts from the end.\<close>

definition py_index :: "'a list \<Rightarrow> int \<Rightarrow> 'a result" where
  "py_index xs i =
     (if 0 \<le> i \<and> i < int (length xs) then Inr (xs ! nat i)
      else if - int (length xs) \<le> i \<and> i < 0 then Inr (xs ! nat (int (length xs) + i))
      else Inl IndexError)"

text \<open>\<open>a[i, j]\<close> on a two-dimensional array held as the list of its rows.\<close>

definition py_index2 :: "'a list list \<Rightarrow> int \<Rightarrow> int \<Rightarrow> 'a result" where
  "py_index2 a i j = bind (py_index a i) (\<lambda>row. py_index row j)"

text \<open>A slice bound against a length \<open>n\<close>: a negative bound counts from the end, and both are clipped.\<close>

definition slice_bound :: "nat \<Rightarrow> int \<Rightarrow> nat" where
  "slice_bound n i = (if i < 0 then nat (max 0 (int n + i)) else min n (nat i))"

text \<open>\<open>xs[i:]\<close>.\<close>

definition slice_from :: "'a list \<Rightarrow> int \<Rightarrow> 'a list" where
  "slice_from xs i = drop (slice_bound (length xs) i) xs"

text \<open>
  \<open>np.linspace(start, stop, num)\<close> with its end point (\<open>linspace\<close>; one sample is
  \<open>start\<close>, and the last of several is \<open>stop\<close> itself) and with \<open>endpoint=False\<close>
  (\<open>linspace_open\<close>), for a number of samples that is a length. \<open>np_linspace_open\<close> is
  the call on any integer: a negative number of samples is a ValueError.
\<close>

definition linspace :: "real \<Rightarrow> real \<Rightarrow> nat \<Rightarrow> real list" where
  "linspace start stop num =
     map (\<lambda>i. if 0 < i \<and> i = num - 1 then stop
               else start + real i * ((stop - start) / real (num - 1)))
         [0..<num]"

definition linspace_open :: "real \<Rightarrow> real \<Rightarrow> nat \<Rightarrow> real list" where
  "linspace_open start stop num =
     map (\<lambda>i. start + real i * ((stop - start) / real num)) [0..<num]"

definition np_linspace_open :: "real \<Rightarrow> real \<Rightarrow> int \<Rightarrow> real list result" where
  "np_linspace_open start stop num =
     (if num < 0 then Inl ValueError else Inr (linspace_open start stop (nat num)))"

text \<open>A pair is an array of two elements, read and written at index 0 or 1.\<close>

definition coord :: "nat \<Rightarrow> 'a \<times> 'a \<Rightarrow> 'a" where
  "coord i p = (if i = 0 then fst p else snd p)"

definition set_coord :: "nat \<Rightarrow> 'a \<Rightarrow> 'a \<times> 'a \<Rightarrow> 'a \<times> 'a" where
  "set_coord i v p = (if i = 0 then (v, snd p) else (fst p, v))"

subsection \<open>The object\<close>

text \<open>
  A colour is an RGB triple of bytes, a texture an array of colours held as the list of
  its rows (the protocols \<open>Map\<close>, \<open>Camera\<close> and \<open>Texture\<close> are not among the sources:
  the map is a two-dimensional integer array, the camera has a position \<open>pos\<close> and a
  2x2 matrix \<open>plane\<close>, as \<open>render\<close> uses them). Attributes whose Python name starts with
  an underscore have the prefix \<open>u_\<close>; \<open>map\<close>, \<open>ceiling\<close> and \<open>floor\<close> are
  \<open>map_grid\<close>, \<open>ceiling_tex\<close> and \<open>floor_tex\<close>. \<open>colors\<close> is the widget's own buffer
  (six channels: two colours a cell), \<open>u_colors\<close> the raycaster's, of twice the height.
\<close>

type_synonym rgb = "nat \<times> nat \<times> nat"

type_synonym texture = "rgb list list"

record raycaster =
  height :: nat
  width :: nat
  colors :: "(rgb \<times> rgb) list list"
  default_color :: "rgb \<times> rgb"
  map_grid :: "int list list"
  camera_pos :: "real \<times> real"
  camera_plane :: "(real \<times> real) \<times> (real \<times> real)"
  textures :: "texture list"
  light_textures :: "texture list"
  ceiling_tex :: "texture option"
  ceiling_color :: rgb
  floor_tex :: "texture option"
  floor_color :: rgb
  u_pos_int :: "int \<times> int"
  u_pos_frac :: "real \<times> real"
  u_colors :: "rgb list list"
  u_ray_angles :: "(real \<times> real) list"
  u_rotated_angles :: "(real \<times> real) list"
  u_deltas :: "(ieee \<times> ieee) list"
  u_sides :: "(ieee \<times> ieee) list"
  u_steps :: "(int \<times> int) list"
  u_distances :: "real list"

definition HOPS :: nat where
  "HOPS = 20"

subsection \<open>resize\<close>

text \<open>
  Modelled from the spec: \<open>Widget.resize\<close> of the base class that \<open>RayCaster\<close> extends
  is missing (\<open>src/nurses_2/widgets/widget.py\<close> is an earlier revision, whose constructor
  and \<open>render\<close> do not take the arguments \<open>RayCaster\<close> passes). The resize sets the
  widget's dimensions to \<open>dim\<close> and re-allocates \<open>colors\<close> at that size, keeping the
  content both sizes share and the default colour elsewhere.
\<close>

definition widget_resize :: "nat \<times> nat \<Rightarrow> raycaster \<Rightarrow> raycaster" where
  "widget_resize dims s =
     (let h = fst dims; w = snd dims
      in s\<lparr>height := h, width := w,
           colors := map (\<lambda>y. map (\<lambda>x. if y < length (colors s) \<and> x < length (colors s ! y)
                                          then colors s ! y ! x else default_color s)
                                   [0..<w])
                         [0..<h]\<rparr>)"

definition resize :: "nat \<times> nat \<Rightarrow> raycaster \<Rightarrow> raycaster" where
  "resize dims s =
     (let s = widget_resize dims s;
          height = height s;
          width = width s;
          angles = map (\<lambda>t. (1, t)) (linspace (- 1) 1 width);
          zeros = replicate width (0, 0)
      in s\<lparr>u_colors := replicate (2 * height) (replicate width (0, 0, 0)),
           u_ray_angles := angles,
           u_rotated_angles := zeros,
           u_deltas := replicate width (Fin 0, Fin 0),
           u_sides := replicate width (Fin 0, Fin 0),
           u_steps := replicate width (0, 0),
           u_distances := map (\<lambda>x. real height / x)
                              (linspace_open (1 / 1000) (real height) height)\<rparr>)"

text \<open>
  \<open>__init__\<close>: the attributes, the two position buffers, and \<open>resize(self.dim)\<close>. The
  widget starts with \<open>colors\<close> of its size in the default colour, and
  \<open>light_textures or textures\<close> is \<open>textures\<close> for \<open>None\<close> and for an empty list.
\<close>

definition init :: "nat \<times> nat \<Rightarrow> rgb \<times> rgb \<Rightarrow> int list list \<Rightarrow> real \<times> real
                      \<Rightarrow> (real \<times> real) \<times> (real \<times> real) \<Rightarrow> texture list \<Rightarrow> texture list option
                      \<Rightarrow> texture option \<Rightarrow> rgb \<Rightarrow> texture option \<Rightarrow> rgb \<Rightarrow> raycaster" where
  "init dims dflt m pos plane texs light ceil ceil_color flr flr_color =
     resize dims
       \<lparr>height = fst dims, width = snd dims,
        colors = replicate (fst dims) (replicate (snd dims) dflt),
        default_color = dflt,
        map_grid = m, camera_pos = pos, camera_plane = plane,
        textures = texs,
        light_textures = (case light of None \<Rightarrow> texs | Some l \<Rightarrow> if l = [] then texs else l),
        ceiling_tex = ceil, ceiling_color = ceil_color,
        floor_tex = flr, floor_color = flr_color,
        u_pos_int = (0, 0), u_pos_frac = (0, 0),
        u_colors = [], u_ray_angles = [], u_rotated_angles = [], u_deltas = [],
        u_sides = [], u_steps = [], u_distances = []\<rparr>"

subsection \<open>cast_ray: casting\<close>

text \<open>
  The loop over \<open>range(HOPS)\<close>, as a recursion on the hops left. It works on the row
  \<open>sides\<close> of \<open>_sides\<close> and on \<open>ray_pos\<close> (the buffer \<open>_pos_int\<close>), and returns both as it
  leaves them, with the hit: \<open>Some (side, texture_index)\<close> after \<open>break\<close>, \<open>None\<close>
  when the loop runs out (its \<open>else\<close> branch). Reading the map outside of it is an
  IndexError; an index from \<open>-n\<close> to \<open>-1\<close> reads from the far end, as numpy does.
\<close>

fun dda :: "nat \<Rightarrow> int list list \<Rightarrow> ieee \<times> ieee \<Rightarrow> int \<times> int \<Rightarrow> ieee \<times> ieee \<Rightarrow> int \<times> int
              \<Rightarrow> ((nat \<times> int) option \<times> (ieee \<times> ieee) \<times> (int \<times> int)) result" where
  "dda 0 m delta step sides ray_pos = Inr (None, sides, ray_pos)"
| "dda (Suc n) m delta step sides ray_pos =
     (let side = (if ieee_lt (fst sides) (snd sides) then 0 else 1);
          sides = set_coord side (ieee_add (coord side sides) (coord side delta)) sides;
          ray_pos = set_coord side (wrap16 (coord side ray_pos + coord side step)) ray_pos
      in bind (py_index2 m (fst ray_pos) (snd ray_pos)) (\<lambda>texture_index.
           if texture_index \<noteq> 0 then Inr (Some (side, texture_index), sides, ray_pos)
           else dda n m delta step sides ray_pos))"

text \<open>
  The casting section of \<open>cast_ray\<close>: the rows of the column (an IndexError if there is
  no such column), the camera's cell, the loop.
\<close>

definition cast :: "nat \<Rightarrow> raycaster
              \<Rightarrow> ((nat \<times> int) option \<times> (ieee \<times> ieee) \<times> (int \<times> int)) result" where
  "cast column s =
     bind (py_index (u_rotated_angles s) (int column)) (\<lambda>ray_angle.
     bind (py_index (u_deltas s) (int column)) (\<lambda>delta.
     bind (py_index (u_steps s) (int column)) (\<lambda>step.
     bind (py_index (u_sides s) (int column)) (\<lambda>sides.
       dda HOPS (map_grid s) delta step sides
         (to_int16 (fst (camera_pos s)), to_int16 (snd (camera_pos s)))))))"

text \<open>The perpendicular distance (lines 129 to 133).\<close>

definition wall_distance :: "int \<times> int \<Rightarrow> real \<times> real \<Rightarrow> int \<times> int \<Rightarrow> real \<times> real \<Rightarrow> nat \<Rightarrow> ieee" where
  "wall_distance ray_pos cam step ray_angle side =
     ieee_div (Fin (real_of_int (coord side ray_pos) - coord side cam
                    + (if coord side step = 1 then 0 else 1)))
              (Fin (coord side ray_angle))"

subsection \<open>cast_ray: rendering\<close>

text \<open>
  Line 142: \<open>int(height / distance) if distance else 1000\<close>. A float is false when it
  is zero; NaN and the infinities are true.
\<close>

definition column_height_of :: "nat \<Rightarrow> ieee \<Rightarrow> int result" where
  "column_height_of h distance =
     (if distance \<noteq> Fin 0 then py_int (ieee_div (Fin (real h)) distance) else Inr 1000)"

text \<open>
  Lines 146 to 152: \<open>(half_column, start, end)\<close> of a column height in a buffer of
  height \<open>h\<close>. \<open>>> 1\<close> halves and rounds down.
\<close>

definition column_extent :: "nat \<Rightarrow> int \<Rightarrow> int \<times> int \<times> int" where
  "column_extent h column_height =
     (let half_height = int h div 2;
          half_column = column_height div 2;
          half_column = (if half_column > half_height then half_height else half_column)
      in (half_column, half_height - half_column, half_height + half_column))"

text \<open>\<open>texture.shape\<close>: the rows, and the length of a row.\<close>

definition tex_height :: "texture \<Rightarrow> nat" where
  "tex_height t = length t"

definition tex_width :: "texture \<Rightarrow> nat" where
  "tex_width t = (case t of [] \<Rightarrow> 0 | row # _ \<Rightarrow> length row)"

text \<open>Line 159: where the wall was hit, as a fraction of its width.\<close>

definition wall_x_of :: "real \<times> real \<Rightarrow> ieee \<Rightarrow> real \<times> real \<Rightarrow> nat \<Rightarrow> ieee" where
  "wall_x_of cam distance ray_angle side =
     ieee_mod1 (ieee_add (Fin (coord (1 - side) cam))
                         (ieee_mul distance (Fin (coord (1 - side) ray_angle))))"

text \<open>Lines 162 to 164: the texture's column, mirrored by the sign of the ray.\<close>

definition texture_x :: "nat \<Rightarrow> ieee \<Rightarrow> nat \<Rightarrow> real \<Rightarrow> int result" where
  "texture_x side wall_x tex_w ray_angle_side =
     bind (py_int (ieee_mul wall_x (Fin (real tex_w)))) (\<lambda>tex_x.
       Inr (if (if side = 1 then - 1 else 1) * ray_angle_side < 0
            then int tex_w - tex_x - 1 else tex_x))"

text \<open>
  Lines 168 to 179: the texture rows sampled for the rows from \<open>start\<close> to \<open>stop\<close>
  (the source's \<open>end\<close>). \<open>tex_h / column_height\<close> divides two Python integers.
\<close>

definition texture_rows :: "int \<Rightarrow> int \<Rightarrow> int \<Rightarrow> nat \<Rightarrow> int list result" where
  "texture_rows column_height start stop tex_h =
     (let drawn_height = stop - start;
          offset = real_of_int (column_height - drawn_height) / 2
      in if column_height = 0 then Inl ZeroDivisionError
         else
           (let ratio = real tex_h / real_of_int column_height;
                texture_start = offset * ratio;
                texture_end = (offset + real_of_int drawn_height) * ratio
            in bind (np_linspace_open texture_start texture_end drawn_height) (\<lambda>ys.
                 Inr (map trunc ys))))"

text \<open>
  Lines 184 and 185 on one channel of one pixel, and its conversion to a byte when
  line 188 stores it in the buffer.
\<close>

definition darken :: "real \<Rightarrow> nat \<Rightarrow> nat" where
  "darken distance v = nat \<lfloor>min 255 (max 0 (real v * exp (- distance * (5 / 100))))\<rfloor>"

definition darken_rgb :: "real \<Rightarrow> rgb \<Rightarrow> rgb" where
  "darken_rgb distance c =
     (darken distance (fst c), darken distance (fst (snd c)), darken distance (snd (snd c)))"

text \<open>
  \<open>colors[a:b, col] = vals\<close> on a buffer of width \<open>w\<close>: an IndexError if there is no
  such column; the values are as many as the rows of the slice, or one value for all of
  them, and a ValueError otherwise. \<open>fill_column\<close> is the assignment of one colour.
\<close>

definition set_rows :: "nat \<Rightarrow> nat \<Rightarrow> nat \<Rightarrow> (nat \<Rightarrow> 'a) \<Rightarrow> 'a list list \<Rightarrow> 'a list list" where
  "set_rows lo hi col f cs =
     map (\<lambda>y. if lo \<le> y \<and> y < hi then (cs ! y)[col := f (y - lo)] else cs ! y) [0..<length cs]"

definition assign_column :: "nat \<Rightarrow> int \<Rightarrow> int \<Rightarrow> nat \<Rightarrow> 'a list \<Rightarrow> 'a list list \<Rightarrow> 'a list list result" where
  "assign_column w a b col vals cs =
     (let lo = slice_bound (length cs) a; hi = slice_bound (length cs) b
      in if \<not> col < w then Inl IndexError
         else if length vals = hi - lo then Inr (set_rows lo hi col (\<lambda>k. vals ! k) cs)
         else if length vals = 1 then Inr (set_rows lo hi col (\<lambda>k. vals ! 0) cs)
         else Inl ValueError)"

definition fill_column :: "nat \<Rightarrow> int \<Rightarrow> int \<Rightarrow> nat \<Rightarrow> 'a \<Rightarrow> 'a list list \<Rightarrow> 'a list list result" where
  "fill_column w a b col v cs =
     (if \<not> col < w then Inl IndexError
      else Inr (set_rows (slice_bound (length cs) a) (slice_bound (length cs) b) col (\<lambda>k. v) cs))"

text \<open>
  Lines 209 to 212: the texture coordinates of the floor and ceiling rows, from the
  rows of \<open>_distances\<close> below the wall.
\<close>

definition plane_coords :: "real list \<Rightarrow> real \<Rightarrow> real \<Rightarrow> real \<Rightarrow> ieee list" where
  "plane_coords dists distance floor_c cam_c =
     map (\<lambda>x. let d = ieee_div (Fin x) (Fin distance)
               in ieee_mod1 (ieee_add (ieee_mul d (Fin floor_c))
                                      (ieee_mul (ieee_sub (Fin 1) d) (Fin cam_c))))
         dists"

text \<open>
  Lines 215 to 217 and 223 to 225: the pixels of a floor or ceiling texture at the
  coordinates. The row index is scaled by the texture's width and the column index by its
  height, as the source has it.
\<close>

definition sample_plane :: "texture \<Rightarrow> ieee list \<Rightarrow> ieee list \<Rightarrow> rgb list result" where
  "sample_plane t tex_ys tex_xs =
     bind (mapM (\<lambda>v. astype_int (ieee_mul v (Fin (real (tex_width t))))) tex_ys) (\<lambda>ys.
     bind (mapM (\<lambda>v. astype_int (ieee_mul v (Fin (real (tex_height t))))) tex_xs) (\<lambda>xs.
       mapM (\<lambda>p. py_index2 t (fst p) (snd p)) (zip ys xs)))"

text \<open>
  Lines 190 to 228: the ceiling above the strip and the floor below it, for a hit at
  the finite distance \<open>d\<close> with \<open>wall_x = wx\<close>. \<open>colors[:start]\<close> is the slice from 0
  and \<open>colors[end:]\<close> the slice up to the length.
\<close>

definition paint_planes :: "nat \<Rightarrow> nat \<Rightarrow> real \<times> real \<Rightarrow> int \<times> int \<Rightarrow> int \<Rightarrow> int \<Rightarrow> int
                              \<Rightarrow> real \<Rightarrow> real \<Rightarrow> raycaster \<Rightarrow> rgb list list \<Rightarrow> rgb list list result" where
  "paint_planes column side ray_angle ray_pos half_column start stop d wx s cs =
     (if ceiling_tex s = None \<and> floor_tex s = None
      then bind (fill_column (width s) 0 start column (ceiling_color s) cs) (\<lambda>cs.
             fill_column (width s) stop (int (length cs)) column (floor_color s) cs)
      else
        (let cam = camera_pos s;
             floor_y = (if side = 0
                        then real_of_int (fst ray_pos) + (if fst ray_angle < 0 then 1 else 0)
                        else real_of_int (fst ray_pos) + wx);
             floor_x = (if side = 0
                        then real_of_int (snd ray_pos) + wx
                        else real_of_int (snd ray_pos) + (if snd ray_angle < 0 then 1 else 0));
             dists = slice_from (u_distances s) half_column;
             tex_ys = plane_coords dists d floor_y (fst cam);
             tex_xs = plane_coords dists d floor_x (snd cam)
         in bind (case ceiling_tex s of
                    Some c \<Rightarrow> bind (sample_plane c (rev tex_ys) (rev tex_xs)) (\<lambda>vals.
                                assign_column (width s) 0 start column vals cs)
                  | None \<Rightarrow> fill_column (width s) 0 start column (ceiling_color s) cs) (\<lambda>cs.
            case floor_tex s of
              Some f \<Rightarrow> bind (sample_plane f tex_ys tex_xs) (\<lambda>vals.
                          assign_column (width s) stop (int (length cs)) column vals cs)
            | None \<Rightarrow> fill_column (width s) stop (int (length cs)) column (floor_color s) cs)))"

text \<open>
  The rendering section of \<open>cast_ray\<close>, lines 129 to 228, for a hit on \<open>side\<close> with
  \<open>texture_index\<close> at \<open>ray_pos\<close>. It works on \<open>cs\<close>, the array that line 139 binds
  to \<open>colors\<close>, and returns it painted. After line 162 the distance and \<open>wall_x\<close> are
  finite, since \<open>int\<close> has raised otherwise; \<open>finite_part\<close> reads them as such.
\<close>

fun finite_part :: "ieee \<Rightarrow> real result" where
  "finite_part (Fin a) = Inr a"
| "finite_part _ = Inl ValueError"

definition paint_column :: "nat \<Rightarrow> nat \<Rightarrow> int \<Rightarrow> real \<times> real \<Rightarrow> int \<times> int \<Rightarrow> int \<times> int
                              \<Rightarrow> raycaster \<Rightarrow> rgb list list \<Rightarrow> rgb list list result" where
  "paint_column column side texture_index ray_angle step ray_pos s cs =
     (let cam = camera_pos s;
          distance = wall_distance ray_pos cam step ray_angle side;
          h = length cs
      in bind (column_height_of h distance) (\<lambda>column_height.
         let (half_column, start, stop) = column_extent h column_height
         in bind (py_index (if side \<noteq> 0 then textures s else light_textures s) (texture_index - 1))
              (\<lambda>texture.
         let tex_h = tex_height texture; tex_w = tex_width texture;
             wall_x = wall_x_of cam distance ray_angle side
         in bind (texture_x side wall_x tex_w (coord side ray_angle)) (\<lambda>tex_x.
            bind (texture_rows column_height start stop tex_h) (\<lambda>tex_ys.
            bind (mapM (\<lambda>y. py_index2 texture y tex_x) tex_ys) (\<lambda>texture_column.
            bind (finite_part distance) (\<lambda>d.
            bind (finite_part wall_x) (\<lambda>wx.
            bind (assign_column (width s) start stop column (map (darken_rgb d) texture_column)
                    cs) (\<lambda>cs.
              paint_planes column side ray_angle ray_pos half_column start stop d wx s cs)))))))))"

text \<open>
  \<open>cast_ray(column)\<close>. The loop leaves its row of \<open>_sides\<close> and the buffer \<open>_pos_int\<close>
  as it changed them; without a hit the method returns there, and with one the array
  \<open>_colors\<close> is the painted one. The rows of the column exist where they are read with
  \<open>!\<close>, since \<open>cast\<close> has read them.
\<close>

definition cast_ray :: "nat \<Rightarrow> raycaster \<Rightarrow> raycaster result" where
  "cast_ray column s =
     bind (cast column s) (\<lambda>(hit, sides, ray_pos).
       let s = s\<lparr>u_pos_int := ray_pos, u_sides := (u_sides s)[column := sides]\<rparr>
       in case hit of
            None \<Rightarrow> Inr s
          | Some (side, texture_index) \<Rightarrow>
              bind (paint_column column side texture_index
                      (u_rotated_angles s ! column) (u_steps s ! column) ray_pos s (u_colors s))
                (\<lambda>cs. Inr (s\<lparr>u_colors := cs\<rparr>)))"

subsection \<open>render\<close>

text \<open>\<open>colors[a:b] = v\<close>: whole rows of one colour.\<close>

definition fill_rows :: "nat \<Rightarrow> nat \<Rightarrow> 'a \<Rightarrow> 'a list list \<Rightarrow> 'a list list" where
  "fill_rows lo hi v cs =
     map (\<lambda>y. if lo \<le> y \<and> y < hi then map (\<lambda>_. v) (cs ! y) else cs ! y) [0..<length cs]"

text \<open>Lines 234 to 241: what the frame starts from.\<close>

definition prime_colors :: "raycaster \<Rightarrow> rgb list list" where
  "prime_colors s =
     (let cs = u_colors s; n = length cs; h = slice_bound n (int (height s))
      in if ceiling_tex s = None \<and> floor_tex s = None
         then fill_rows h n (floor_color s) (fill_rows 0 h (ceiling_color s) cs)
         else if ceiling_tex s = None then fill_rows 0 h (ceiling_color s) cs
         else if floor_tex s = None then fill_rows h n (floor_color s) cs
         else cs)"

text \<open>
  Lines 259 to 271, a row at a time: the ray of a column (\<open>np.dot\<close> of its row
  \<open>(1, t)\<close> with the camera's plane), the distance between grid lines along it, the
  step, and the distance to the first grid line.
\<close>

definition dot_plane :: "(real \<times> real) \<times> (real \<times> real) \<Rightarrow> real \<times> real \<Rightarrow> real \<times> real" where
  "dot_plane plane a =
     (fst a * fst (fst plane) + snd a * fst (snd plane),
      fst a * snd (fst plane) + snd a * snd (snd plane))"

definition delta_of :: "real \<Rightarrow> ieee" where
  "delta_of r = ieee_abs (ieee_div (Fin 1) (Fin r))"

definition sign_of :: "real \<Rightarrow> int" where
  "sign_of r = (if 0 < r then 1 else if r < 0 then - 1 else 0)"

definition heaviside :: "int \<Rightarrow> real \<Rightarrow> real" where
  "heaviside x h0 = (if x < 0 then 0 else if x = 0 then h0 else 1)"

definition side_of :: "real \<Rightarrow> real \<Rightarrow> ieee" where
  "side_of r pos_frac =
     ieee_mul (ieee_mul (ieee_sub (Fin (heaviside (sign_of r) 1)) (Fin pos_frac))
                        (Fin (real_of_int (sign_of r))))
              (delta_of r)"

definition prepare_rays :: "raycaster \<Rightarrow> raycaster" where
  "prepare_rays s =
     (let rotated = map (dot_plane (camera_plane s)) (u_ray_angles s);
          pos_frac = (frac (fst (camera_pos s)), frac (snd (camera_pos s)))
      in s\<lparr>u_rotated_angles := rotated,
           u_deltas := map (\<lambda>r. (delta_of (fst r), delta_of (snd r))) rotated,
           u_steps := map (\<lambda>r. (sign_of (fst r), sign_of (snd r))) rotated,
           u_pos_frac := pos_frac,
           u_sides := map (\<lambda>r. (side_of (fst r) (fst pos_frac), side_of (snd r) (snd pos_frac)))
                          rotated\<rparr>)"

fun cast_rays :: "nat list \<Rightarrow> raycaster \<Rightarrow> raycaster result" where
  "cast_rays [] s = Inr s"
| "cast_rays (column # columns) s = bind (cast_ray column s) (cast_rays columns)"

text \<open>
  Line 277: the even rows beside the odd rows, into the widget's \<open>colors\<close>, whose shape
  has to be the result's.
\<close>

definition pack_colors :: "rgb list list \<Rightarrow> (rgb \<times> rgb) list list" where
  "pack_colors cs = map (\<lambda>r. zip (cs ! (2 * r)) (cs ! (2 * r + 1))) [0..<length cs div 2]"

text \<open>
  \<open>render\<close>. What the base class's \<open>render\<close> then does with \<open>colors\<close> is the host's
  part and is left out.
\<close>

definition render :: "raycaster \<Rightarrow> raycaster result" where
  "render s =
     bind (cast_rays [0..<width s] (prepare_rays (s\<lparr>u_colors := prime_colors s\<rparr>))) (\<lambda>s.
       if length (u_colors s) = 2 * height s then Inr (s\<lparr>colors := pack_colors (u_colors s)\<rparr>)
       else Inl ValueError)"

subsection \<open>What a column computes\<close>

text \<open>
  The distance (lines 116 to 133) and the column height (line 142) that \<open>cast_ray\<close>
  computes for a column, \<open>None\<close> without a hit: the first steps of \<open>cast_ray\<close>, for
  stating properties of them.
\<close>

definition distance_at :: "nat \<Rightarrow> raycaster \<Rightarrow> ieee option result" where
  "distance_at column s =
     bind (cast column s) (\<lambda>(hit, sides, ray_pos).
       case hit of
         None \<Rightarrow> Inr None
       | Some (side, texture_index) \<Rightarrow>
           Inr (Some (wall_distance ray_pos (camera_pos s) (u_steps s ! column)
                        (u_rotated_angles s ! column) side)))"

definition column_height_at :: "nat \<Rightarrow> raycaster \<Rightarrow> int option result" where
  "column_height_at column s =
     bind (distance_at column s) (\<lambda>d.
       case d of
         None \<Rightarrow> Inr None
       | Some distance \<Rightarrow>
           bind (column_height_of (length (u_colors s)) distance) (\<lambda>column_height.
             Inr (Some column_height)))"

subsection \<open>The map cells a ray reads\<close>

text \<open>
  The coordinates at which the loop of \<open>cast_ray\<close> reads the map, in order:
  \<open>dda_reads\<close> is \<open>dda\<close> with each \<open>ray_pos\<close> it indexes the map with recorded, up to
  the read that hits or raises. \<open>in_grid\<close> holds of the coordinates of a cell of the map
  (numpy also accepts the negative indices of the far end).
\<close>

fun dda_reads :: "nat \<Rightarrow> int list list \<Rightarrow> ieee \<times> ieee \<Rightarrow> int \<times> int \<Rightarrow> ieee \<times> ieee \<Rightarrow> int \<times> int
                    \<Rightarrow> (int \<times> int) list" where
  "dda_reads 0 m delta step sides ray_pos = []"
| "dda_reads (Suc n) m delta step sides ray_pos =
     (let side = (if ieee_lt (fst sides) (snd sides) then 0 else 1);
          sides = set_coord side (ieee_add (coord side sides) (coord side delta)) sides;
          ray_pos = set_coord side (wrap16 (coord side ray_pos + coord side step)) ray_pos
      in ray_pos #
         (case py_index2 m (fst ray_pos) (snd ray_pos) of
            Inl e \<Rightarrow> []
          | Inr texture_index \<Rightarrow>
              if texture_index \<noteq> 0 then [] else dda_reads n m delta step sides ray_pos))"

definition cast_reads :: "nat \<Rightarrow> raycaster \<Rightarrow> (int \<times> int) list" where
  "cast_reads column s =
     (if column < length (u_deltas s) \<and> column < length (u_steps s) \<and> column < length (u_sides s)
         \<and> column < length (u_rotated_angles s)
      then dda_reads HOPS (map_grid s) (u_deltas s ! column) (u_steps s ! column)
             (u_sides s ! column) (to_int16 (fst (camera_pos s)), to_int16 (snd (camera_pos s)))
      else [])"

definition in_grid :: "int list list \<Rightarrow> int \<times> int \<Rightarrow> bool" where
  "in_grid m p =
     (0 \<le> fst p \<and> fst p < int (length m) \<and> 0 \<le> snd p \<and> snd p < int (length (m ! nat (fst p))))"

text \<open>
  A map closed by walls: a rectangle whose first and last row and whose first and last
  column hold no zero. \<open>inside\<close> holds of the cells within that border.
\<close>

definition walled :: "int list list \<Rightarrow> bool" where
  "walled m =
     (m \<noteq> [] \<and> hd m \<noteq> [] \<and> (\<forall>row \<in> set m. length row = length (hd m))
      \<and> (\<forall>v \<in> set (hd m). v \<noteq> 0) \<and> (\<forall>v \<in> set (last m). v \<noteq> 0)
      \<and> (\<forall>row \<in> set m. hd row \<noteq> 0 \<and> last row \<noteq> 0))"

definition inside :: "int list list \<Rightarrow> int \<times> int \<Rightarrow> bool" where
  "inside m p =
     (1 \<le> fst p \<and> fst p < int (length m) - 1 \<and> 1 \<le> snd p \<and> snd p < int (length (hd m)) - 1)"

text \<open>
  The face toward a point with coordinate \<open>c\<close> of the cell \<open>cell\<close>, which spans
  \<open>cell\<close> to \<open>cell + 1\<close> on that axis: the distance of the point to it is the
  perpendicular distance to the wall.
\<close>

definition wall_face :: "real \<Rightarrow> int \<Rightarrow> real" where
  "wall_face c cell = (if c < real_of_int cell then real_of_int cell else real_of_int cell + 1)"

subsection \<open>Scenes\<close>

text \<open>
  A corridor one cell wide and seven long between walls, a 2x2 wall texture, and a
  raycaster of one column looking down the corridor from \<open>pos\<close>: unit direction
  \<open>(1, 0)\<close>, plane vector \<open>(0, 1/10)\<close>, flat ceiling and floor colours.
\<close>

definition corridor :: "int list list" where
  "corridor =
     [[1, 1, 1], [1, 0, 1], [1, 0, 1], [1, 0, 1], [1, 0, 1], [1, 0, 1], [1, 0, 1], [1, 0, 1],
      [1, 1, 1]]"

definition red_wall :: texture where
  "red_wall = [[(200, 0, 0), (100, 0, 0)], [(50, 0, 0), (20, 0, 0)]]"

definition corridor_view :: "nat \<Rightarrow> real \<times> real \<Rightarrow> raycaster" where
  "corridor_view rows pos =
     init (rows, 1) ((0, 0, 0), (0, 0, 0)) corridor pos ((1, 0), (0, 1 / 10)) [red_wall] None
       None (1, 1, 1) None (2, 2, 2)"

text \<open>The same raycaster in the middle of a 3x3 map without walls.\<close>

definition open_field :: "int list list" where
  "open_field = [[0, 0, 0], [0, 0, 0], [0, 0, 0]]"

definition open_view :: raycaster where
  "open_view =
     init (2, 1) ((0, 0, 0), (0, 0, 0)) open_field (3 / 2, 3 / 2) ((1, 0), (0, 1 / 10)) [red_wall]
       None None (1, 1, 1) None (2, 2, 2)"

text \<open>
  The corridor seen through three columns, a cell and a half from its end wall, which
  the camera faces squarely: the ray of the middle column runs along the axis.
\<close>

definition facing_view :: raycaster where
  "facing_view =
     init (2, 3) ((0, 0, 0), (0, 0, 0)) corridor (13 / 2, 3 / 2) ((1, 0), (0, 1 / 10)) [red_wall]
       None None (1, 1, 1) None (2, 2, 2)"

text \<open>The corridor seen the other way, toward the wall of row 0.\<close>

definition back_view :: "nat \<Rightarrow> real \<times> real \<Rightarrow> raycaster" where
  "back_view rows pos =
     init (rows, 1) ((0, 0, 0), (0, 0, 0)) corridor pos ((- 1, 0), (0, 1 / 10)) [red_wall] None
       None (1, 1, 1) None (2, 2, 2)"

subsection \<open>Writes to the buffer\<close>

text \<open>
  What a write to the rows from \<open>lo\<close> to \<open>hi\<close> leaves alone: the shape of the buffer and
  every other row.
\<close>

definition kept_outside :: "nat \<Rightarrow> nat \<Rightarrow> 'a list list \<Rightarrow> 'a list list \<Rightarrow> bool" where
  "kept_outside lo hi cs cs' =
     (length cs' = length cs
      \<and> (\<forall>y < length cs. length (cs' ! y) = length (cs ! y))
      \<and> (\<forall>y < length cs. \<not> (lo \<le> y \<and> y < hi) \<longrightarrow> cs' ! y = cs ! y))"

text \<open>The raycaster of two rows half a cell from the end wall of the corridor, rays prepared.\<close>

definition near_wall_view :: raycaster where
  "near_wall_view = prepare_rays (corridor_view 2 (15 / 2, 19 / 10))"

subsection \<open>Frames\<close>

text \<open>
  A write to a buffer as a mask: \<open>overlay M cs\<close> is \<open>cs\<close> with the pixel \<open>(y, x)\<close>
  replaced by \<open>v\<close> wherever \<open>M y x = Some v\<close>. An operation on buffers of the shape
  \<open>shp\<close> (the lengths of the rows) writes only when, on all of them, it raises one
  error or lays one mask over the buffer: where and what it writes does not depend on
  what the buffer holds.
\<close>

definition overlay :: "(nat \<Rightarrow> nat \<Rightarrow> 'a option) \<Rightarrow> 'a list list \<Rightarrow> 'a list list" where
  "overlay M cs =
     map (\<lambda>y. map (\<lambda>x. case M y x of Some v \<Rightarrow> v | None \<Rightarrow> cs ! y ! x) [0..<length (cs ! y)])
         [0..<length cs]"

definition writes_only :: "nat list \<Rightarrow> ('a list list \<Rightarrow> 'a list list result) \<Rightarrow> bool" where
  "writes_only shp G =
     ((\<exists>e. \<forall>cs. map length cs = shp \<longrightarrow> G cs = Inl e)
      \<or> (\<exists>M. \<forall>cs. map length cs = shp \<longrightarrow> G cs = Inr (overlay M cs)))"

text \<open>
  The same for an operation on the object. \<open>vary s cs p k\<close> is \<open>s\<close> with another
  colour buffer, another scratch \<open>_pos_int\<close> and other \<open>colors\<close>; an operation is
  oblivious of the frame when, on all of them, it raises one error or lays one mask
  over the buffer and leaves one table of \<open>_sides\<close>.
\<close>

definition vary :: "raycaster \<Rightarrow> rgb list list \<Rightarrow> int \<times> int \<Rightarrow> (rgb \<times> rgb) list list \<Rightarrow> raycaster" where
  "vary s cs p k = s\<lparr>u_colors := cs, u_pos_int := p, colors := k\<rparr>"

definition frame_oblivious :: "(raycaster \<Rightarrow> raycaster result) \<Rightarrow> bool" where
  "frame_oblivious G =
     (\<forall>s. (\<exists>e. \<forall>cs p k. map length cs = map length (u_colors s) \<longrightarrow> G (vary s cs p k) = Inl e)
        \<or> (\<exists>M sd. \<forall>cs p k. map length cs = map length (u_colors s) \<longrightarrow>
               (\<exists>p'. G (vary s cs p k) = Inr (vary (s\<lparr>u_sides := sd\<rparr>) (overlay M cs) p' k))))"

text \<open>What a render is given: the map, the camera, the textures, the colours, the size.\<close>

definition setting :: "raycaster \<Rightarrow>
    int list list \<times> (real \<times> real) \<times> ((real \<times> real) \<times> (real \<times> real)) \<times> texture list
    \<times> texture list \<times> texture option \<times> rgb \<times> texture option \<times> rgb \<times> nat \<times> nat" where
  "setting s =
     (map_grid s, camera_pos s, camera_plane s, textures s, light_textures s, ceiling_tex s,
      ceiling_color s, floor_tex s, floor_color s, height s, width s)"

text \<open>
  A corridor of 21 cells, longer than \<open>HOPS\<close>, seen through one column of two rows,
  with a texture for the ceiling and a colour for the floor. The first frame is
  rendered half a cell from the far wall, the second one from the other end of the
  corridor, where the ray of the column finds no wall. \<open>flat_corridor_view\<close> is the same
  with a colour for the ceiling too.
\<close>

definition long_corridor :: "int list list" where
  "long_corridor = [1, 1, 1] # replicate 21 [1, 0, 1] @ [[1, 1, 1]]"

definition sky :: texture where
  "sky = [[(10, 20, 30)]]"

definition long_corridor_view :: "real \<times> real \<Rightarrow> raycaster" where
  "long_corridor_view pos =
     init (2, 1) ((0, 0, 0), (0, 0, 0)) long_corridor pos ((1, 0), (0, 1 / 100)) [red_wall] None
       (Some sky) (1, 1, 1) None (2, 2, 2)"

definition flat_corridor_view :: "real \<times> real \<Rightarrow> raycaster" where
  "flat_corridor_view pos =
     init (2, 1) ((0, 0, 0), (0, 0, 0)) long_corridor pos ((1, 0), (0, 1 / 100)) [red_wall] None
       None (1, 1, 1) None (2, 2, 2)"

definition frame1 :: "raycaster result" where
  "frame1 = render (long_corridor_view (43 / 2, 3 / 2))"

definition frame2 :: "raycaster result" where
  "frame2 = bind frame1 (\<lambda>s. render (s\<lparr>camera_pos := (3 / 2, 3 / 2)\<rparr>))"

section \<open>Properties\<close>

subsection \<open>Evaluation\<close>

lemmas eval_defs =
  init_def resize_def widget_resize_def linspace_def linspace_open_def prepare_rays_def
  dot_plane_def delta_of_def sign_of_def heaviside_def side_of_def cast_def py_index_def
  py_index2_def bind_def to_int16_def trunc_def wrap16_def HOPS_def coord_def set_coord_def
  ieee_sub_def inf_of_sign_def Let_def eval_nat_numeral frac_def cast_ray_def paint_column_def
  paint_planes_def
  wall_distance_def column_height_of_def column_extent_def tex_height_def tex_width_def
  wall_x_of_def texture_x_def texture_rows_def np_linspace_open_def assign_column_def
  fill_column_def set_rows_def slice_bound_def slice_from_def plane_coords_def
  sample_plane_def darken_rgb_def darken_def render_def prime_colors_def fill_rows_def
  pack_colors_def distance_at_def column_height_at_def cast_reads_def in_grid_def walled_def
  open_view_def open_field_def wall_face_def

subsection \<open>The loop\<close>

lemma wrap16_id: "- 32768 \<le> i \<Longrightarrow> i \<le> 32767 \<Longrightarrow> wrap16 i = i"
  by (simp add: wrap16_def)

lemma py_index_nonneg: "0 \<le> i \<Longrightarrow> i < int (length xs) \<Longrightarrow> py_index xs i = Inr (xs ! nat i)"
  by (simp add: py_index_def)

lemma walled_cell:
  assumes w: "walled m" and y: "0 \<le> y" "y < int (length m)" and x: "0 \<le> x" "x < int (length (hd m))"
    and z: "m ! nat y ! nat x = 0"
  shows "inside m (y, x)"
proof -
  from w have ne: "m \<noteq> []" "hd m \<noteq> []" and len: "\<And>row. row \<in> set m \<Longrightarrow> length row = length (hd m)"
    and top: "\<And>v. v \<in> set (hd m) \<Longrightarrow> v \<noteq> 0" and bot: "\<And>v. v \<in> set (last m) \<Longrightarrow> v \<noteq> 0"
    and lr: "\<And>row. row \<in> set m \<Longrightarrow> hd row \<noteq> 0 \<and> last row \<noteq> 0"
    unfolding walled_def by blast+
  have ny: "nat y < length m" using y by simp
  have rowin: "m ! nat y \<in> set m" using ny by (rule nth_mem)
  have rl: "length (m ! nat y) = length (hd m)" using rowin by (rule len)
  have nx: "nat x < length (m ! nat y)" using x rl by simp
  have xin: "m ! nat y ! nat x \<in> set (m ! nat y)" using nx by (rule nth_mem)
  have rne: "m ! nat y \<noteq> []" using nx by auto
  have "y \<noteq> 0"
  proof
    assume "y = 0"
    then have "m ! nat y = hd m" using ne(1) by (simp add: hd_conv_nth)
    then have "m ! nat y ! nat x \<in> set (hd m)" using xin by simp
    then have "m ! nat y ! nat x \<noteq> 0" by (rule top)
    then show False using z by simp
  qed
  moreover have "y \<noteq> int (length m) - 1"
  proof
    assume e: "y = int (length m) - 1"
    then have "nat y = length m - 1" by simp
    then have "m ! nat y = last m" using ne(1) by (simp add: last_conv_nth)
    then have "m ! nat y ! nat x \<in> set (last m)" using xin by simp
    then have "m ! nat y ! nat x \<noteq> 0" by (rule bot)
    then show False using z by simp
  qed
  moreover have "x \<noteq> 0"
  proof
    assume "x = 0"
    then have "m ! nat y ! nat x = hd (m ! nat y)" using rne by (simp add: hd_conv_nth)
    moreover have "hd (m ! nat y) \<noteq> 0" using lr [OF rowin] by simp
    ultimately show False using z by simp
  qed
  moreover have "x \<noteq> int (length (hd m)) - 1"
  proof
    assume "x = int (length (hd m)) - 1"
    then have "nat x = length (m ! nat y) - 1" using rl by simp
    then have "m ! nat y ! nat x = last (m ! nat y)" using rne by (simp add: last_conv_nth)
    moreover have "last (m ! nat y) \<noteq> 0" using lr [OF rowin] by simp
    ultimately show False using z by simp
  qed
  ultimately show ?thesis using y x by (simp add: inside_def)
qed

lemma dda_walled:
  assumes w: "walled m" and rows: "length m \<le> 32767" and cols: "length (hd m) \<le> 32767"
    and st: "\<bar>fst step\<bar> \<le> 1" "\<bar>snd step\<bar> \<le> 1"
  shows "inside m p \<Longrightarrow>
         (\<forall>q \<in> set (dda_reads n m delta step sides p). in_grid m q)
         \<and> (\<exists>r. dda n m delta step sides p = Inr r)"
proof (induction n arbitrary: sides p)
  case 0
  then show ?case by simp
next
  case (Suc n)
  define side :: nat where "side = (if ieee_lt (fst sides) (snd sides) then 0 else 1)"
  define sides' where "sides' = set_coord side (ieee_add (coord side sides) (coord side delta)) sides"
  define p' where "p' = set_coord side (wrap16 (coord side p + coord side step)) p"
  have inp: "1 \<le> fst p" "fst p < int (length m) - 1" "1 \<le> snd p" "snd p < int (length (hd m)) - 1"
    using Suc.prems by (simp_all add: inside_def)
  have cs: "- 32768 \<le> coord side p + coord side step" "coord side p + coord side step \<le> 32767"
    using inp st rows cols by (auto simp: coord_def)
  have nowrap: "wrap16 (coord side p + coord side step) = coord side p + coord side step"
    using cs by (rule wrap16_id)
  have b: "0 \<le> fst p'" "fst p' < int (length m)" "0 \<le> snd p'" "snd p' < int (length (hd m))"
    unfolding p'_def nowrap using inp st by (auto simp: coord_def set_coord_def)
  have "m ! nat (fst p') \<in> set m" using b by simp
  with w have rl: "length (m ! nat (fst p')) = length (hd m)"
    unfolding walled_def by blast
  have rd: "py_index2 m (fst p') (snd p') = Inr (m ! nat (fst p') ! nat (snd p'))"
    using b rl by (simp add: py_index2_def py_index_nonneg bind_def)
  have g: "in_grid m p'" using b rl by (simp add: in_grid_def)
  have unf_r: "dda_reads (Suc n) m delta step sides p =
      p' # (case py_index2 m (fst p') (snd p') of Inl e \<Rightarrow> []
            | Inr ti \<Rightarrow> if ti \<noteq> 0 then [] else dda_reads n m delta step sides' p')"
    unfolding p'_def sides'_def side_def by (simp add: Let_def)
  have unf_d: "dda (Suc n) m delta step sides p =
      bind (py_index2 m (fst p') (snd p')) (\<lambda>ti.
        if ti \<noteq> 0 then Inr (Some (side, ti), sides', p') else dda n m delta step sides' p')"
    unfolding p'_def sides'_def side_def by (simp add: Let_def)
  show ?case
  proof (cases "m ! nat (fst p') ! nat (snd p') = 0")
    case True
    have "inside m (fst p', snd p')"
      using w b True by (rule walled_cell)
    then have "inside m p'" by simp
    from Suc.IH [OF this, of sides'] g True show ?thesis
      unfolding unf_r unf_d rd by (simp add: bind_def)
  next
    case False
    with g show ?thesis
      unfolding unf_r unf_d rd by (simp add: bind_def)
  qed
qed

lemma bind_eq_Inr: "bind m f = Inr y \<longleftrightarrow> (\<exists>x. m = Inr x \<and> f x = Inr y)"
  by (cases m) (simp_all add: bind_def)

lemma py_index_Inr:
  assumes "py_index xs i = Inr v"
  shows "- int (length xs) \<le> i \<and> i < int (length xs) \<and> v \<in> set xs"
  using assms by (auto simp: py_index_def split: if_splits)

lemma py_index_nat: "n < length xs \<Longrightarrow> py_index xs (int n) = Inr (xs ! n)"
  by (simp add: py_index_def)

lemma py_index_nat_Inr: "py_index xs (int n) = Inr v \<Longrightarrow> n < length xs \<and> v = xs ! n"
  by (auto simp: py_index_def split: if_splits)

lemma to_int16_floor: "0 \<le> x \<Longrightarrow> x < 32767 \<Longrightarrow> to_int16 x = \<lfloor>x\<rfloor>"
proof -
  assume a: "0 \<le> x" "x < 32767"
  then have "0 \<le> \<lfloor>x\<rfloor>" "\<lfloor>x\<rfloor> < 32767" by (simp_all add: floor_less_iff)
  then show ?thesis using a by (simp add: to_int16_def trunc_def wrap16_id)
qed

lemma sign_of_abs: "\<bar>sign_of r\<bar> \<le> 1"
  by (simp add: sign_of_def)

lemma prepare_rays_tables:
  "u_rotated_angles (prepare_rays s) = map (dot_plane (camera_plane s)) (u_ray_angles s)"
  "u_steps (prepare_rays s) = map (\<lambda>r. (sign_of (fst r), sign_of (snd r))) (map (dot_plane (camera_plane s)) (u_ray_angles s))"
  "length (u_deltas (prepare_rays s)) = length (u_ray_angles s)"
  "length (u_sides (prepare_rays s)) = length (u_ray_angles s)"
  "map_grid (prepare_rays s) = map_grid s"
  "camera_pos (prepare_rays s) = camera_pos s"
  "u_colors (prepare_rays s) = u_colors s"
  by (simp_all add: prepare_rays_def Let_def)

lemma cast_prepared:
  assumes "column < length (u_ray_angles s)"
  shows "cast column (prepare_rays s) =
         dda HOPS (map_grid s) (u_deltas (prepare_rays s) ! column)
           (u_steps (prepare_rays s) ! column) (u_sides (prepare_rays s) ! column)
           (to_int16 (fst (camera_pos s)), to_int16 (snd (camera_pos s)))"
  using assms by (simp add: cast_def prepare_rays_tables py_index_nat bind_def)

lemma cast_Inr_column:
  assumes "cast column (prepare_rays s) = Inr r"
  shows "column < length (u_ray_angles s)"
  using assms by (auto simp: cast_def bind_eq_Inr prepare_rays_tables dest!: py_index_nat_Inr)

lemma py_index2_Inr:
  assumes "py_index2 m a b = Inr v" and "length m \<le> 32767" and "\<forall>row \<in> set m. length row \<le> 32767"
  shows "- 32767 \<le> a \<and> a \<le> 32766 \<and> - 32767 \<le> b \<and> b \<le> 32766"
proof -
  from assms(1) obtain row where r: "py_index m a = Inr row" and c: "py_index row b = Inr v"
    by (auto simp: py_index2_def bind_eq_Inr)
  from py_index_Inr [OF r] have a: "- int (length m) \<le> a" "a < int (length m)" "row \<in> set m" by auto
  from py_index_Inr [OF c] have b: "- int (length row) \<le> b" "b < int (length row)" by auto
  from a(3) assms(3) have "length row \<le> 32767" by blast
  with a b assms(2) show ?thesis by simp
qed

lemma dda_hit_track:
  assumes rows: "length m \<le> 32767" and cols: "\<forall>row \<in> set m. length row \<le> 32767"
    and st: "\<bar>fst step\<bar> \<le> 1" "\<bar>snd step\<bar> \<le> 1"
  shows "- 32767 \<le> fst p \<Longrightarrow> fst p \<le> 32766 \<Longrightarrow> - 32767 \<le> snd p \<Longrightarrow> snd p \<le> 32766 \<Longrightarrow>
         dda n m delta step sides p = Inr (Some (side, ti), sides', q) \<Longrightarrow>
         \<exists>k0 k1. fst q = fst p + int k0 * fst step \<and> snd q = snd p + int k1 * snd step
            \<and> (side = 0 \<and> 1 \<le> k0 \<or> side = 1 \<and> 1 \<le> k1)"
proof (induction n arbitrary: sides p)
  case 0
  then show ?case by simp
next
  case (Suc n)
  define sd :: nat where "sd = (if ieee_lt (fst sides) (snd sides) then 0 else 1)"
  define sides1 where "sides1 = set_coord sd (ieee_add (coord sd sides) (coord sd delta)) sides"
  define p1 where "p1 = set_coord sd (wrap16 (coord sd p + coord sd step)) p"
  have sd01: "sd = 0 \<or> sd = 1" by (simp add: sd_def)
  have cs: "- 32768 \<le> coord sd p + coord sd step" "coord sd p + coord sd step \<le> 32767"
    using Suc.prems(1-4) st by (auto simp: coord_def)
  have nowrap: "wrap16 (coord sd p + coord sd step) = coord sd p + coord sd step"
    using cs by (rule wrap16_id)
  have p1: "fst p1 = fst p + (if sd = 0 then fst step else 0)"
           "snd p1 = snd p + (if sd = 0 then 0 else snd step)"
    unfolding p1_def nowrap by (simp_all add: coord_def set_coord_def)
  have unf_d: "dda (Suc n) m delta step sides p =
      bind (py_index2 m (fst p1) (snd p1)) (\<lambda>v.
        if v \<noteq> 0 then Inr (Some (sd, v), sides1, p1) else dda n m delta step sides1 p1)"
    unfolding p1_def sides1_def sd_def by (simp add: Let_def)
  from Suc.prems(5) obtain v where v: "py_index2 m (fst p1) (snd p1) = Inr v"
    and res: "(if v \<noteq> 0 then Inr (Some (sd, v), sides1, p1) else dda n m delta step sides1 p1)
              = Inr (Some (side, ti), sides', q)"
    unfolding unf_d by (auto simp: bind_eq_Inr)
  from py_index2_Inr [OF v rows cols]
  have b1: "- 32767 \<le> fst p1" "fst p1 \<le> 32766" "- 32767 \<le> snd p1" "snd p1 \<le> 32766"
    by auto
  show ?case
  proof (cases "v \<noteq> 0")
    case True
    with res have e: "side = sd" "q = p1" by simp_all
    show ?thesis
    proof (cases "sd = 0")
      case True
      then have "fst q = fst p + int 1 * fst step \<and> snd q = snd p + int 0 * snd step
                 \<and> (side = 0 \<and> 1 \<le> (1::nat) \<or> side = 1 \<and> 1 \<le> (0::nat))"
        using e p1 by simp
      then show ?thesis by blast
    next
      case False
      then have "fst q = fst p + int 0 * fst step \<and> snd q = snd p + int 1 * snd step
                 \<and> (side = 0 \<and> 1 \<le> (0::nat) \<or> side = 1 \<and> 1 \<le> (1::nat))"
        using e p1 sd01 by simp
      then show ?thesis by blast
    qed
  next
    case False
    with res have "dda n m delta step sides1 p1 = Inr (Some (side, ti), sides', q)" by simp
    from Suc.IH [OF b1 this] obtain k0 k1 where
      k: "fst q = fst p1 + int k0 * fst step" "snd q = snd p1 + int k1 * snd step"
         "side = 0 \<and> 1 \<le> k0 \<or> side = 1 \<and> 1 \<le> k1"
      by blast
    show ?thesis
    proof (cases "sd = 0")
      case True
      then have "fst q = fst p + int (Suc k0) * fst step \<and> snd q = snd p + int k1 * snd step
                 \<and> (side = 0 \<and> 1 \<le> Suc k0 \<or> side = 1 \<and> 1 \<le> k1)"
        using k p1 by (auto simp: algebra_simps)
      then show ?thesis by blast
    next
      case False
      then have "fst q = fst p + int k0 * fst step \<and> snd q = snd p + int (Suc k1) * snd step
                 \<and> (side = 0 \<and> 1 \<le> k0 \<or> side = 1 \<and> 1 \<le> Suc k1)"
        using k p1 by (auto simp: algebra_simps)
      then show ?thesis by blast
    qed
  qed
qed


lemma facing_distance_value:
  fixes c :: real and rp k :: int and ra :: real
  assumes ra: "\<bar>ra\<bar> = 1" and c0: "0 \<le> c" and k: "1 \<le> k" and rp: "rp = \<lfloor>c\<rfloor> + k * sign_of ra"
  shows "ieee_div (Fin (real_of_int rp - c + (if sign_of ra = 1 then 0 else 1))) (Fin ra)
         = Fin \<bar>wall_face c rp - c\<bar>"
proof (cases "ra = 1")
  case True
  then have s: "sign_of ra = 1" by (simp add: sign_of_def)
  have "c < real_of_int (\<lfloor>c\<rfloor> + 1)" by linarith
  also have "\<dots> \<le> real_of_int rp" using k rp s by simp
  finally have lt: "c < real_of_int rp" .
  then show ?thesis using True s by (simp add: wall_face_def)
next
  case False
  with ra have m: "ra = - 1" by linarith
  then have s: "sign_of ra = - 1" by (simp add: sign_of_def)
  have "real_of_int rp + 1 \<le> real_of_int \<lfloor>c\<rfloor>" using k rp s by simp
  also have "\<dots> \<le> c" by simp
  finally have le: "real_of_int rp + 1 \<le> c" .
  then show ?thesis using m s by (simp add: wall_face_def)
qed

subsection \<open>Map reads\<close>

text \<open>
  C3, as the code has it. In a map closed by walls (of at most 32767 rows and columns),
  with the camera in a cell inside the border, every read of the map by the loop of
  \<open>cast_ray\<close> (lines 116 to 124) is at coordinates of the grid, and the loop ends
  without an error, by a hit or with its hops used up. The hop budget does not bound the
  reads by itself: the walls stop the ray. What \<open>cast_ray\<close> does after the loop (the
  texture it looks up for the cell's value, the planes it samples) is not part of this.
\<close>

theorem walled_map_reads_in_grid:
  assumes "walled (map_grid s)"
    and "length (map_grid s) \<le> 32767" and "length (hd (map_grid s)) \<le> 32767"
    and "1 \<le> fst (camera_pos s)" and "fst (camera_pos s) < real (length (map_grid s)) - 1"
    and "1 \<le> snd (camera_pos s)" and "snd (camera_pos s) < real (length (hd (map_grid s))) - 1"
    and "column < length (u_ray_angles s)"
  shows "(\<forall>p \<in> set (cast_reads column (prepare_rays s)). in_grid (map_grid s) p)
         \<and> (\<exists>r. cast column (prepare_rays s) = Inr r)"
proof -
  let ?m = "map_grid s"
  let ?t = "prepare_rays s"
  have fy: "to_int16 (fst (camera_pos s)) = \<lfloor>fst (camera_pos s)\<rfloor>"
    using assms by (intro to_int16_floor) auto
  have fx: "to_int16 (snd (camera_pos s)) = \<lfloor>snd (camera_pos s)\<rfloor>"
    using assms by (intro to_int16_floor) auto
  have ins: "inside ?m (\<lfloor>fst (camera_pos s)\<rfloor>, \<lfloor>snd (camera_pos s)\<rfloor>)"
    using assms by (simp add: inside_def le_floor_iff floor_less_iff)
  have st: "\<bar>fst (u_steps ?t ! column)\<bar> \<le> 1" "\<bar>snd (u_steps ?t ! column)\<bar> \<le> 1"
    using assms(8) by (simp_all add: prepare_rays_tables sign_of_abs)
  have rd: "cast_reads column ?t =
      dda_reads HOPS ?m (u_deltas ?t ! column) (u_steps ?t ! column) (u_sides ?t ! column)
        (\<lfloor>fst (camera_pos s)\<rfloor>, \<lfloor>snd (camera_pos s)\<rfloor>)"
    using assms(8) by (simp add: cast_reads_def prepare_rays_tables fy fx)
  have cd: "cast column ?t =
      dda HOPS ?m (u_deltas ?t ! column) (u_steps ?t ! column) (u_sides ?t ! column)
        (\<lfloor>fst (camera_pos s)\<rfloor>, \<lfloor>snd (camera_pos s)\<rfloor>)"
    using assms(8) by (simp add: cast_prepared fy fx)
  show ?thesis
    unfolding rd cd using assms(1,2,3) st ins by (rule dda_walled)
qed

text \<open>The corridor: the ray reads the seven cells down to the end wall.\<close>

theorem walled_witness:
  "walled corridor
   \<and> cast_reads 0 (prepare_rays (corridor_view 2 (3 / 2, 19 / 10)))
       = [(2, 1), (3, 1), (4, 1), (5, 1), (6, 1), (7, 1), (8, 1)]
   \<and> in_grid corridor (8, 1)
   \<and> cast 0 (prepare_rays (corridor_view 2 (3 / 2, 19 / 10)))
       = Inr (Some (0, 1), (Fin (15 / 2), Fin 9), 8, 1)"
  using walled_map_reads_in_grid [of "corridor_view 2 (3 / 2, 19 / 10)" 0]
  unfolding corridor_view_def corridor_def red_wall_def
  by (simp add: eval_defs)

text \<open>
  C3 as stated fails. From the middle of a 3x3 map without walls the second hop reads
  row 3, outside the grid, and numpy raises IndexError.
\<close>

theorem open_map_read_outside:
  "cast_reads 0 (prepare_rays open_view) = [(2, 1), (3, 1)]
   \<and> \<not> in_grid (map_grid open_view) (3, 1)
   \<and> cast 0 (prepare_rays open_view) = Inl IndexError
   \<and> render open_view = Inl IndexError"
  unfolding open_view_def open_field_def red_wall_def
  by (simp add: eval_defs)

subsection \<open>Perpendicular distance\<close>

text \<open>
  The camera faces a wall squarely: its direction (the first row of \<open>plane\<close>) is
  a unit vector along the axis \<open>side\<close>, its plane vector (the second row) has no
  component on that axis, and its position is in the map (of at most 32767 rows and
  columns). Then for every column for which the loop finds a wall on that side, the
  distance computed is the perpendicular distance from the camera to the face of the
  wall: the same for all such columns.
\<close>

theorem facing_wall_distance:
  assumes rows: "length (map_grid s) \<le> 32767"
    and cols: "\<forall>row \<in> set (map_grid s). length row \<le> 32767"
    and cam: "0 \<le> fst (camera_pos s)" "fst (camera_pos s) < 32767"
             "0 \<le> snd (camera_pos s)" "snd (camera_pos s) < 32767"
    and ones: "\<forall>a \<in> set (u_ray_angles s). fst a = 1"
    and facing: "\<bar>coord side (fst (camera_plane s))\<bar> = 1" "coord side (snd (camera_plane s)) = 0"
    and hit: "cast column (prepare_rays s) = Inr (Some (side, texture_index), sides, ray_pos)"
  shows "distance_at column (prepare_rays s)
         = Inr (Some (Fin \<bar>wall_face (coord side (camera_pos s)) (coord side ray_pos)
                            - coord side (camera_pos s)\<bar>))"
proof -
  let ?t = "prepare_rays s"
  let ?ray = "dot_plane (camera_plane s) (u_ray_angles s ! column)"
  let ?p = "(\<lfloor>fst (camera_pos s)\<rfloor>, \<lfloor>snd (camera_pos s)\<rfloor>)"
  have col: "column < length (u_ray_angles s)" using hit by (rule cast_Inr_column)
  have fy: "to_int16 (fst (camera_pos s)) = \<lfloor>fst (camera_pos s)\<rfloor>"
    using cam by (intro to_int16_floor) auto
  have fx: "to_int16 (snd (camera_pos s)) = \<lfloor>snd (camera_pos s)\<rfloor>"
    using cam by (intro to_int16_floor) auto
  have steps: "u_steps ?t ! column = (sign_of (fst ?ray), sign_of (snd ?ray))"
    using col by (simp add: prepare_rays_tables)
  have rot: "u_rotated_angles ?t ! column = ?ray"
    using col by (simp add: prepare_rays_tables)
  have d: "dda HOPS (map_grid s) (u_deltas ?t ! column) (sign_of (fst ?ray), sign_of (snd ?ray))
             (u_sides ?t ! column) ?p = Inr (Some (side, texture_index), sides, ray_pos)"
    using hit col by (simp add: cast_prepared fy fx steps)
  have b: "- 32767 \<le> fst ?p" "fst ?p \<le> 32766" "- 32767 \<le> snd ?p" "snd ?p \<le> 32766"
    using cam by (simp_all add: floor_less_iff le_floor_iff)
  have st: "\<bar>fst (sign_of (fst ?ray), sign_of (snd ?ray))\<bar> \<le> 1"
           "\<bar>snd (sign_of (fst ?ray), sign_of (snd ?ray))\<bar> \<le> 1"
    by (simp_all add: sign_of_abs)
  from dda_hit_track [OF rows cols st b d] obtain k0 k1 where
    k: "fst ray_pos = \<lfloor>fst (camera_pos s)\<rfloor> + int k0 * sign_of (fst ?ray)"
       "snd ray_pos = \<lfloor>snd (camera_pos s)\<rfloor> + int k1 * sign_of (snd ?ray)"
       "side = 0 \<and> 1 \<le> k0 \<or> side = 1 \<and> 1 \<le> k1"
    by auto
  have one: "fst (u_ray_angles s ! column) = 1"
    using ones col by simp
  have ra: "\<bar>coord side ?ray\<bar> = 1"
    using facing one k(3) by (auto simp: dot_plane_def coord_def)
  have da: "distance_at column ?t =
      Inr (Some (wall_distance ray_pos (camera_pos s) (sign_of (fst ?ray), sign_of (snd ?ray)) ?ray side))"
    using hit by (simp add: distance_at_def bind_def prepare_rays_tables(6) steps rot)
  have wd: "wall_distance ray_pos (camera_pos s) (sign_of (fst ?ray), sign_of (snd ?ray)) ?ray side
      = ieee_div (Fin (real_of_int (coord side ray_pos) - coord side (camera_pos s)
                       + (if sign_of (coord side ?ray) = 1 then 0 else 1)))
                 (Fin (coord side ?ray))"
    by (simp add: wall_distance_def coord_def)
  from k(3) obtain kk :: int where kk: "1 \<le> kk"
    "coord side ray_pos = \<lfloor>coord side (camera_pos s)\<rfloor> + kk * sign_of (coord side ?ray)"
    "0 \<le> coord side (camera_pos s)"
  proof
    assume a: "side = 0 \<and> 1 \<le> k0"
    show ?thesis
      by (rule that [of "int k0"]) (use a k(1) cam in \<open>simp_all add: coord_def\<close>)
  next
    assume a: "side = 1 \<and> 1 \<le> k1"
    show ?thesis
      by (rule that [of "int k1"]) (use a k(2) cam in \<open>simp_all add: coord_def\<close>)
  qed
  show ?thesis
    unfolding da wd using facing_distance_value [OF ra kk(3) kk(1) kk(2)] by simp
qed

lemma resize_ray_angles_ones: "\<forall>a \<in> set (u_ray_angles (resize d s)). fst a = 1"
  by (simp add: resize_def widget_resize_def Let_def)

text \<open>The corridor: the end wall's face is at 8, the camera at 1.5, the distance 6.5.\<close>

theorem facing_wall_distance_witness:
  "cast 0 (prepare_rays (corridor_view 2 (3 / 2, 19 / 10)))
     = Inr (Some (0, 1), (Fin (15 / 2), Fin 9), 8, 1)
   \<and> distance_at 0 (prepare_rays (corridor_view 2 (3 / 2, 19 / 10))) = Inr (Some (Fin (13 / 2)))
   \<and> wall_face (3 / 2) 8 = 8"
  using facing_wall_distance [of "corridor_view 2 (3 / 2, 19 / 10)" 0 0 1 "(Fin (15 / 2), Fin 9)" "(8, 1)"]
  unfolding corridor_view_def corridor_def red_wall_def
  by (simp add: eval_defs)

text \<open>
  C1. Every column that looks at a flat wall should get the perpendicular distance to
  it; the column whose ray runs along an axis gets none. In \<open>facing_view\<close> the wall of
  row 8 is a cell and a half ahead of all three columns. The outer columns get the
  distance \<open>3 / 2\<close>. The ray of the middle column is \<open>(1, 0)\<close>: its distance to the
  first grid line across is \<open>0 * inf\<close>, NaN (lines 261 to 271), no side distance is
  less than NaN, so every hop takes side 1 with the step 0, the loop reads the camera's
  own cell \<open>(6, 1)\<close> twenty times and \<open>cast_ray\<close> returns without a distance. In the
  frame the wall has a gap: the middle column holds the ceiling's and the floor's colour.
\<close>

theorem centre_column_finds_no_wall:
  "u_rotated_angles (prepare_rays facing_view) = [(1, - (1 / 10)), (1, 0), (1, 1 / 10)]
   \<and> map (\<lambda>column. distance_at column (prepare_rays facing_view)) [0, 1, 2]
       = [Inr (Some (Fin (3 / 2))), Inr None, Inr (Some (Fin (3 / 2)))]
   \<and> cast 1 (prepare_rays facing_view) = Inr (None, (Fin (1 / 2), NaN), (6, 1))
   \<and> cast_reads 1 (prepare_rays facing_view) = replicate 20 (6, 1)
   \<and> py_index2 (map_grid facing_view) 7 1 = Inr 0
   \<and> py_index2 (map_grid facing_view) 8 1 = Inr 1
   \<and> map_sum id u_colors (render facing_view)
       = Inr [[(1, 1, 1), (1, 1, 1), (1, 1, 1)],
              [(darken (3 / 2) 200, 0, 0), (1, 1, 1), (darken (3 / 2) 100, 0, 0)],
              [(darken (3 / 2) 50, 0, 0), (2, 2, 2), (darken (3 / 2) 20, 0, 0)],
              [(2, 2, 2), (2, 2, 2), (2, 2, 2)]]"
  unfolding facing_view_def corridor_def red_wall_def
  by (simp add: eval_defs)

subsection \<open>Wall strip\<close>

text \<open>
  C5, as the code has it. For a hit at a distance \<open>d \<ge> 0\<close> in a buffer of \<open>2 * rows\<close>
  rows, the column height is \<open>floor (2 * rows / d)\<close> for every \<open>d > 0\<close>, however small,
  and the sentinel 1000 for \<open>d = 0\<close> only. The strip is centred on the middle row:
  it starts at \<open>rows - column_height div 2\<close> and stops at \<open>rows + column_height div 2\<close>,
  clamped to the buffer, so \<open>0 \<le> start \<le> stop \<le> 2 * rows\<close>.
\<close>

theorem strip_extent:
  assumes "0 \<le> d"
  shows "\<exists>ch hc start stop.
           column_height_of (2 * rows) (Fin d) = Inr ch
         \<and> ch = (if d = 0 then 1000 else \<lfloor>real (2 * rows) / d\<rfloor>)
         \<and> column_extent (2 * rows) ch = (hc, start, stop)
         \<and> start = max 0 (int rows - ch div 2)
         \<and> stop = min (int (2 * rows)) (int rows + ch div 2)
         \<and> 0 \<le> start \<and> start \<le> stop \<and> stop \<le> int (2 * rows)"
proof (cases "d = 0")
  case True
  then show ?thesis
    by (auto simp: column_height_of_def column_extent_def Let_def)
next
  case False
  with assms have "0 \<le> \<lfloor>real (2 * rows) / d\<rfloor>" by simp
  then have "0 \<le> \<lfloor>real (2 * rows) / d\<rfloor> div 2" by simp
  with False assms show ?thesis
    by (auto simp: column_height_of_def column_extent_def Let_def trunc_def)
qed

text \<open>A wall 3 cells away in a buffer of 40 rows: height 13, rows 14 to 26.\<close>

theorem strip_extent_witness:
  "(0::real) \<le> 3 \<and> column_height_of (2 * 20) (Fin 3) = Inr 13
   \<and> column_extent (2 * 20) 13 = (6, 14, 26)"
  using strip_extent [of 3 20]
  by (simp add: column_height_of_def column_extent_def trunc_def)

text \<open>
  C5 as stated fails: no distance above zero is clamped. A millionth of a cell from the
  wall the column height is forty million, not the sentinel.
\<close>

theorem tiny_distance_not_clamped:
  "column_height_of 40 (Fin (1 / 1000000)) = Inr 40000000"
  by (simp add: column_height_of_def trunc_def)

subsection \<open>Column height and distance\<close>

text \<open>
  C8, as the code has it. With the buffer fixed, of two distances \<open>d1 < d2\<close> to the
  wall: when \<open>d1\<close> is above zero the farther column height is at most the nearer one's
  (it need not be smaller, since the height is cut to an integer); when \<open>d1\<close> is zero
  the nearer height is the sentinel 1000 of line 142, and the farther one is at most
  that exactly when the buffer's height is less than \<open>1001 * d2\<close>.
\<close>

theorem column_height_antimono:
  assumes "0 \<le> d1" and "d1 < d2"
  shows "\<exists>c1 c2. column_height_of h (Fin d1) = Inr c1 \<and> column_height_of h (Fin d2) = Inr c2
           \<and> (0 < d1 \<longrightarrow> c2 \<le> c1)
           \<and> (d1 = 0 \<longrightarrow> c1 = 1000 \<and> (c2 \<le> c1 \<longleftrightarrow> real h < 1001 * d2))"
proof (cases "d1 = 0")
  case True
  have "\<lfloor>real h / d2\<rfloor> \<le> 1000 \<longleftrightarrow> real h < 1001 * d2"
  proof -
    have "\<lfloor>real h / d2\<rfloor> \<le> 1000 \<longleftrightarrow> real h / d2 < 1001"
      by (simp add: floor_le_iff)
    also have "\<dots> \<longleftrightarrow> real h < 1001 * d2"
      using assms True by (simp add: pos_divide_less_eq)
    finally show ?thesis .
  qed
  then show ?thesis
    using assms True by (simp add: column_height_of_def trunc_def)
next
  case False
  with assms have p: "0 < d1" by simp
  have "real h / d2 \<le> real h / d1"
    using assms p by (simp add: frac_le)
  then have "\<lfloor>real h / d2\<rfloor> \<le> \<lfloor>real h / d1\<rfloor>"
    by (rule floor_mono)
  then show ?thesis
    using assms p by (simp add: column_height_of_def trunc_def)
qed

text \<open>
  In a buffer of 40 rows: heights 20 and 8 at the distances 2 and 5; the sentinel 1000
  at the distance 0 against 4000 at a hundredth of a cell.
\<close>

theorem column_height_antimono_witness:
  "(0::real) \<le> 2 \<and> (2::real) < 5 \<and> column_height_of 40 (Fin 2) = Inr 20
   \<and> column_height_of 40 (Fin 5) = Inr 8
   \<and> column_height_of 40 (Fin 0) = Inr 1000 \<and> column_height_of 40 (Fin (1 / 100)) = Inr 4000
   \<and> \<not> real (40::nat) < 1001 * (1 / 100)"
  using column_height_antimono [of 2 5 40] column_height_antimono [of 0 "1 / 100" 40]
  by (simp add: column_height_of_def trunc_def)

text \<open>
  C8 as stated fails, in two ways. In the corridor, with a buffer of 40 rows, the
  camera 3 cells from the end wall and the camera 3.05 cells from it both get column
  height 13. Looking the other way, the camera that touches the wall of row 0 (distance
  0) gets the sentinel 1000, and the camera a hundredth of a cell farther gets 4000.
\<close>

theorem farther_not_smaller:
  "distance_at 0 (prepare_rays (corridor_view 20 (5, 19 / 10))) = Inr (Some (Fin 3))
   \<and> distance_at 0 (prepare_rays (corridor_view 20 (99 / 20, 19 / 10))) = Inr (Some (Fin (61 / 20)))
   \<and> column_height_at 0 (prepare_rays (corridor_view 20 (5, 19 / 10))) = Inr (Some 13)
   \<and> column_height_at 0 (prepare_rays (corridor_view 20 (99 / 20, 19 / 10))) = Inr (Some 13)
   \<and> distance_at 0 (prepare_rays (back_view 20 (1, 19 / 10))) = Inr (Some (Fin 0))
   \<and> distance_at 0 (prepare_rays (back_view 20 (101 / 100, 19 / 10))) = Inr (Some (Fin (1 / 100)))
   \<and> column_height_at 0 (prepare_rays (back_view 20 (1, 19 / 10))) = Inr (Some 1000)
   \<and> column_height_at 0 (prepare_rays (back_view 20 (101 / 100, 19 / 10))) = Inr (Some 4000)"
  unfolding corridor_view_def back_view_def corridor_def red_wall_def
  by (simp add: eval_defs)

subsection \<open>Texture column\<close>

text \<open>
  C7. Two rays that hit a wall of the same side at the same \<open>wall_x\<close>, with components
  of opposite sign along the axis of the side, sample mirrored texture columns:
  \<open>tex_x\<close> and \<open>tex_w - tex_x - 1\<close>.
\<close>

theorem texture_flip:
  assumes "ra1 * ra2 < 0"
  shows "\<exists>x1 x2. texture_x side (Fin wx) w ra1 = Inr x1 \<and> texture_x side (Fin wx) w ra2 = Inr x2
           \<and> x2 = int w - x1 - 1 \<and> x1 = int w - x2 - 1"
proof -
  from assms have "(ra1 < 0 \<and> 0 < ra2) \<or> (ra2 < 0 \<and> 0 < ra1)"
    by (auto simp: mult_less_0_iff)
  then show ?thesis
    by (auto simp: texture_x_def bind_def)
qed

theorem texture_flip_witness:
  "(- 1) * (1::real) < 0 \<and> texture_x 0 (Fin (1 / 4)) 8 (- 1) = Inr 5
   \<and> texture_x 0 (Fin (1 / 4)) 8 1 = Inr 2"
  using texture_flip [of "- 1" 1 0 "1 / 4" 8]
  by (simp add: texture_x_def bind_def trunc_def)

subsection \<open>Resize\<close>

text \<open>
  C6. Resizing to any size and back gives the table of ray directions that the
  original size had: the table is computed from the width alone.
\<close>

theorem resize_round_trip:
  "u_ray_angles (resize d0 (resize d (resize d0 s))) = u_ray_angles (resize d0 s)"
  by (simp add: resize_def widget_resize_def Let_def)

subsection \<open>Far walls\<close>

text \<open>
  C10 fails on the code. In a widget of 2 rows (a buffer of 4), the end wall of the
  corridor 6.5 cells away gets column height \<open>int (4 / 6.5) = 0\<close>, and
  \<open>tex_h / column_height\<close> raises ZeroDivisionError.
\<close>

theorem far_wall_column_height_zero:
  "distance_at 0 (prepare_rays (corridor_view 2 (3 / 2, 19 / 10))) = Inr (Some (Fin (13 / 2)))
   \<and> column_height_at 0 (prepare_rays (corridor_view 2 (3 / 2, 19 / 10))) = Inr (Some 0)
   \<and> render (corridor_view 2 (3 / 2, 19 / 10)) = Inl ZeroDivisionError"
  unfolding corridor_view_def corridor_def red_wall_def
  by (simp add: eval_defs)

subsection \<open>The colour buffer\<close>

lemma set_rows_length [simp]: "length (set_rows lo hi col f cs) = length cs"
  by (simp add: set_rows_def)

lemma set_rows_nth:
  "y < length cs \<Longrightarrow>
   set_rows lo hi col f cs ! y = (if lo \<le> y \<and> y < hi then (cs ! y)[col := f (y - lo)] else cs ! y)"
  by (simp add: set_rows_def)

lemma set_rows_row_length: "y < length cs \<Longrightarrow> length (set_rows lo hi col f cs ! y) = length (cs ! y)"
  by (simp add: set_rows_nth)

lemma set_rows_kept: "kept_outside lo hi cs (set_rows lo hi col f cs)"
  by (simp add: kept_outside_def set_rows_nth)

lemma assign_column_kept:
  "assign_column w a b col vals cs = Inr cs' \<Longrightarrow>
   kept_outside (slice_bound (length cs) a) (slice_bound (length cs) b) cs cs'"
  by (auto simp: assign_column_def Let_def set_rows_kept split: if_splits)

lemma fill_column_kept:
  "fill_column w a b col v cs = Inr cs' \<Longrightarrow>
   kept_outside (slice_bound (length cs) a) (slice_bound (length cs) b) cs cs'"
  by (auto simp: fill_column_def set_rows_kept split: if_splits)

lemma kept_outside_row:
  "kept_outside lo hi cs cs' \<Longrightarrow> y < length cs \<Longrightarrow> \<not> (lo \<le> y \<and> y < hi) \<Longrightarrow> cs' ! y = cs ! y"
  by (simp add: kept_outside_def)

lemma kept_outside_length: "kept_outside lo hi cs cs' \<Longrightarrow> length cs' = length cs"
  by (simp add: kept_outside_def)

lemma mapM_Inr:
  "mapM f xs = Inr ys \<Longrightarrow> length ys = length xs \<and> (\<forall>k < length xs. f (xs ! k) = Inr (ys ! k))"
proof (induction xs arbitrary: ys)
  case Nil
  then show ?case by simp
next
  case (Cons x xs)
  from Cons.prems obtain y ys' where y: "f x = Inr y" and r: "mapM f xs = Inr ys'" and e: "ys = y # ys'"
    by (auto simp: bind_eq_Inr)
  from Cons.IH [OF r] have ih: "length ys' = length xs" "\<forall>k < length xs. f (xs ! k) = Inr (ys' ! k)"
    by auto
  show ?case
  proof (intro conjI allI impI)
    show "length ys = length (x # xs)" using e ih by simp
  next
    fix k assume "k < length (x # xs)"
    then show "f ((x # xs) ! k) = Inr (ys ! k)"
      using y e ih by (cases k) simp_all
  qed
qed

lemma texture_rows_Inr:
  assumes "texture_rows ch start stop tex_h = Inr ys"
  shows "start \<le> stop \<and> length ys = nat (stop - start) \<and> ch \<noteq> 0"
  using assms
  by (auto simp: texture_rows_def Let_def np_linspace_open_def linspace_open_def bind_eq_Inr
           split: if_splits)

lemma column_extent_bounds:
  assumes "column_extent h ch = (hc, start, stop)"
  shows "0 \<le> start \<and> stop \<le> int h \<and> start + stop = 2 * (int h div 2)"
  using assms by (auto simp: column_extent_def Let_def split: if_splits)

lemma slice_bound_nat: "0 \<le> i \<Longrightarrow> i \<le> int n \<Longrightarrow> slice_bound n i = nat i"
  by (simp add: slice_bound_def)

lemma finite_part_Inr: "finite_part x = Inr d \<Longrightarrow> x = Fin d"
  by (cases x) simp_all

lemma kept_outside_trans_row:
  assumes "kept_outside lo hi cs cs'" and "y < length cs"
  shows "length (cs' ! y) = length (cs ! y)"
  using assms by (simp add: kept_outside_def)

lemma paint_planes_strip:
  assumes ok: "paint_planes column side ray_angle ray_pos hc start stop d wx s cs = Inr cs'"
    and b: "0 \<le> start" "start \<le> stop" "stop \<le> int (length cs)"
  shows "length cs' = length cs \<and> (\<forall>y. start \<le> y \<and> y < stop \<longrightarrow> cs' ! nat y = cs ! nat y)"
proof -
  let ?n = "length cs"
  from ok obtain cs2 where
    k1: "kept_outside (slice_bound ?n 0) (slice_bound ?n start) cs cs2"
    and k2: "kept_outside (slice_bound (length cs2) stop) (slice_bound (length cs2) (int (length cs2))) cs2 cs'"
    unfolding paint_planes_def Let_def
    by (auto simp: bind_eq_Inr split: if_splits option.splits
             dest: fill_column_kept assign_column_kept)
  have l2: "length cs2 = ?n" using k1 by (rule kept_outside_length)
  have l3: "length cs' = ?n" using k2 l2 by (simp add: kept_outside_def)
  have sb: "slice_bound ?n start = nat start" "slice_bound ?n stop = nat stop"
    using b by (simp_all add: slice_bound_nat)
  show ?thesis
  proof (intro conjI allI impI)
    show "length cs' = ?n" by (rule l3)
  next
    fix y assume y: "start \<le> y \<and> y < stop"
    then have yn: "nat y < ?n" using b by arith
    have "cs' ! nat y = cs2 ! nat y"
      using k2 yn y b unfolding l2 sb by (intro kept_outside_row [of _ _ cs2]) (auto simp: l2)
    also have "cs2 ! nat y = cs ! nat y"
      using k1 yn y b unfolding sb by (intro kept_outside_row [of _ _ cs]) auto
    finally show "cs' ! nat y = cs ! nat y" .
  qed
qed

lemma paint_column_strip:
  assumes ok: "paint_column column side ti ray_angle step ray_pos s cs = Inr cs'"
    and shape: "\<forall>row \<in> set cs. column < length row"
  shows "\<exists>d ch hc start stop texture tex_x tex_ys.
           wall_distance ray_pos (camera_pos s) step ray_angle side = Fin d
         \<and> column_height_of (length cs) (Fin d) = Inr ch
         \<and> column_extent (length cs) ch = (hc, start, stop)
         \<and> py_index (if side \<noteq> 0 then textures s else light_textures s) (ti - 1) = Inr texture
         \<and> texture_x side (wall_x_of (camera_pos s) (Fin d) ray_angle side) (tex_width texture)
              (coord side ray_angle) = Inr tex_x
         \<and> texture_rows ch start stop (tex_height texture) = Inr tex_ys
         \<and> 0 \<le> start \<and> start \<le> stop \<and> stop \<le> int (length cs)
         \<and> length cs' = length cs
         \<and> (\<forall>y. start \<le> y \<and> y < stop \<longrightarrow>
               (\<exists>px. py_index2 texture (tex_ys ! nat (y - start)) tex_x = Inr px
                     \<and> cs' ! nat y ! column = darken_rgb d px))"
proof -
  let ?h = "length cs"
  let ?dist = "wall_distance ray_pos (camera_pos s) step ray_angle side"
  from ok obtain ch texture tex_x tex_ys pxs d wx cs1 where
    ch: "column_height_of ?h ?dist = Inr ch"
    and tx: "py_index (if side \<noteq> 0 then textures s else light_textures s) (ti - 1) = Inr texture"
    and x: "texture_x side (wall_x_of (camera_pos s) ?dist ray_angle side) (tex_width texture)
              (coord side ray_angle) = Inr tex_x"
    and rows: "texture_rows ch (fst (snd (column_extent ?h ch))) (snd (snd (column_extent ?h ch)))
                 (tex_height texture) = Inr tex_ys"
    and pxs: "mapM (\<lambda>y. py_index2 texture y tex_x) tex_ys = Inr pxs"
    and d: "finite_part ?dist = Inr d"
    and a1: "assign_column (width s) (fst (snd (column_extent ?h ch))) (snd (snd (column_extent ?h ch)))
               column (map (darken_rgb d) pxs) cs = Inr cs1"
    and pp: "paint_planes column side ray_angle ray_pos (fst (column_extent ?h ch))
               (fst (snd (column_extent ?h ch))) (snd (snd (column_extent ?h ch))) d wx s cs1 = Inr cs'"
    unfolding paint_column_def Let_def case_prod_beta bind_eq_Inr by blast
  define hc where "hc = fst (column_extent ?h ch)"
  define start where "start = fst (snd (column_extent ?h ch))"
  define stop where "stop = snd (snd (column_extent ?h ch))"
  have ext: "column_extent ?h ch = (hc, start, stop)"
    by (simp add: hc_def start_def stop_def)
  note rows' = rows [folded start_def stop_def]
  note a1' = a1 [folded start_def stop_def]
  note pp' = pp [folded start_def stop_def hc_def]
  have dist: "?dist = Fin d" using d by (rule finite_part_Inr)
  from column_extent_bounds [OF ext] have b0: "0 \<le> start" "stop \<le> int ?h" by auto
  from texture_rows_Inr [OF rows'] have b1: "start \<le> stop" "length tex_ys = nat (stop - start)" by auto
  from mapM_Inr [OF pxs] have px: "length pxs = length tex_ys"
    "\<And>k. k < length tex_ys \<Longrightarrow> py_index2 texture (tex_ys ! k) tex_x = Inr (pxs ! k)" by auto
  have sb: "slice_bound ?h start = nat start" "slice_bound ?h stop = nat stop"
    using b0 b1 by (simp_all add: slice_bound_nat)
  have len: "length (map (darken_rgb d) pxs) = nat stop - nat start"
    using px(1) b1 b0 by simp
  have cs1: "cs1 = set_rows (nat start) (nat stop) column (\<lambda>k. map (darken_rgb d) pxs ! k) cs"
    using a1' len unfolding assign_column_def Let_def sb by (simp split: if_splits)
  have l1: "length cs1 = ?h" by (simp add: cs1)
  from paint_planes_strip [OF pp'] b0 b1 l1
  have l3: "length cs' = ?h" and keep: "\<And>y. start \<le> y \<Longrightarrow> y < stop \<Longrightarrow> cs' ! nat y = cs1 ! nat y"
    by auto
  have pix: "\<exists>px. py_index2 texture (tex_ys ! nat (y - start)) tex_x = Inr px
                  \<and> cs' ! nat y ! column = darken_rgb d px" if y: "start \<le> y \<and> y < stop" for y
  proof -
    have yn: "nat y < ?h" using y b0 by arith
    have k: "nat (y - start) < length tex_ys" using y b1 b0 by arith
    have kk: "nat y - nat start = nat (y - start)" using y b0 by arith
    have rowlen: "column < length (cs ! nat y)" using shape yn by simp
    have inr: "nat start \<le> nat y" "nat y < nat stop" using y b0 by arith+
    have "cs' ! nat y ! column = cs1 ! nat y ! column"
      using keep y by simp
    also have "\<dots> = map (darken_rgb d) pxs ! nat (y - start)"
      using yn inr rowlen by (simp add: cs1 set_rows_nth kk)
    also have "\<dots> = darken_rgb d (pxs ! nat (y - start))"
      using k px(1) by simp
    finally show ?thesis using px(2) [OF k] by blast
  qed
  show ?thesis
    using dist ch ext tx x rows' b0 b1 l3 pix unfolding dist
    by (intro exI [of _ d] exI [of _ ch] exI [of _ hc] exI [of _ start] exI [of _ stop]
              exI [of _ texture] exI [of _ tex_x] exI [of _ tex_ys]) simp
qed


subsection \<open>Fog\<close>

lemma darken_rgb_triple:
  "darken_rgb d (r, g, b) =
     (nat \<lfloor>min 255 (max 0 (real r * exp (- d * (5 / 100))))\<rfloor>,
      nat \<lfloor>min 255 (max 0 (real g * exp (- d * (5 / 100))))\<rfloor>,
      nat \<lfloor>min 255 (max 0 (real b * exp (- d * (5 / 100))))\<rfloor>)"
  by (simp add: darken_rgb_def darken_def)

text \<open>
  C9. After \<open>cast_ray\<close> on a column with a hit at distance \<open>d\<close>, every pixel of the
  wall strip (rows \<open>start\<close> to \<open>stop\<close> of the column) is the texture's pixel sampled
  for that row, each channel multiplied by \<open>exp (- d * 0.05)\<close>, clamped to 0..255, and
  stored as a byte (the fraction cut off).
\<close>

theorem fog_shading:
  assumes shape: "\<forall>row \<in> set (u_colors s). column < length row"
    and hit: "cast column s = Inr (Some (side, texture_index), sides, ray_pos)"
    and ok: "cast_ray column s = Inr s'"
  shows "\<exists>d ch hc start stop texture tex_x tex_ys.
           distance_at column s = Inr (Some (Fin d))
         \<and> column_height_of (length (u_colors s)) (Fin d) = Inr ch
         \<and> column_extent (length (u_colors s)) ch = (hc, start, stop)
         \<and> py_index (if side \<noteq> 0 then textures s else light_textures s) (texture_index - 1)
             = Inr texture
         \<and> texture_x side (wall_x_of (camera_pos s) (Fin d) (u_rotated_angles s ! column) side)
              (tex_width texture) (coord side (u_rotated_angles s ! column)) = Inr tex_x
         \<and> texture_rows ch start stop (tex_height texture) = Inr tex_ys
         \<and> (\<forall>y. start \<le> y \<and> y < stop \<longrightarrow>
               (\<exists>r g b. py_index2 texture (tex_ys ! nat (y - start)) tex_x = Inr (r, g, b)
                  \<and> u_colors s' ! nat y ! column =
                      (nat \<lfloor>min 255 (max 0 (real r * exp (- d * (5 / 100))))\<rfloor>,
                       nat \<lfloor>min 255 (max 0 (real g * exp (- d * (5 / 100))))\<rfloor>,
                       nat \<lfloor>min 255 (max 0 (real b * exp (- d * (5 / 100))))\<rfloor>)))"
proof -
  let ?t = "s\<lparr>u_pos_int := ray_pos, u_sides := (u_sides s)[column := sides]\<rparr>"
  from ok hit obtain cs' where pc: "paint_column column side texture_index (u_rotated_angles s ! column)
                          (u_steps s ! column) ray_pos ?t (u_colors s) = Inr cs'"
    and s': "u_colors s' = cs'"
    by (auto simp: cast_ray_def bind_eq_Inr Let_def)
  have e: "camera_pos ?t = camera_pos s" "textures ?t = textures s"
    "light_textures ?t = light_textures s" by simp_all
  from paint_column_strip [OF pc shape, unfolded e, folded s'] obtain d ch hc start stop texture tex_x tex_ys where
    f: "wall_distance ray_pos (camera_pos s) (u_steps s ! column) (u_rotated_angles s ! column) side = Fin d"
       "column_height_of (length (u_colors s)) (Fin d) = Inr ch"
       "column_extent (length (u_colors s)) ch = (hc, start, stop)"
       "py_index (if side \<noteq> 0 then textures s else light_textures s) (texture_index - 1) = Inr texture"
       "texture_x side (wall_x_of (camera_pos s) (Fin d) (u_rotated_angles s ! column) side)
              (tex_width texture) (coord side (u_rotated_angles s ! column)) = Inr tex_x"
       "texture_rows ch start stop (tex_height texture) = Inr tex_ys"
    and pix: "\<And>y. start \<le> y \<and> y < stop \<Longrightarrow>
               \<exists>px. py_index2 texture (tex_ys ! nat (y - start)) tex_x = Inr px
                    \<and> u_colors s' ! nat y ! column = darken_rgb d px"
    by blast
  have da: "distance_at column s = Inr (Some (Fin d))"
    using hit f(1) by (simp add: distance_at_def bind_def)
  have pix': "\<exists>r g b. py_index2 texture (tex_ys ! nat (y - start)) tex_x = Inr (r, g, b)
                  \<and> u_colors s' ! nat y ! column =
                      (nat \<lfloor>min 255 (max 0 (real r * exp (- d * (5 / 100))))\<rfloor>,
                       nat \<lfloor>min 255 (max 0 (real g * exp (- d * (5 / 100))))\<rfloor>,
                       nat \<lfloor>min 255 (max 0 (real b * exp (- d * (5 / 100))))\<rfloor>)"
    if y: "start \<le> y \<and> y < stop" for y
  proof -
    from pix [OF y] obtain px where p: "py_index2 texture (tex_ys ! nat (y - start)) tex_x = Inr px"
      "u_colors s' ! nat y ! column = darken_rgb d px" by blast
    obtain r g b where e: "px = (r, g, b)" by (cases px) auto
    show ?thesis using p unfolding e darken_rgb_triple by blast
  qed
  show ?thesis
    using da f(2-6) pix' by blast
qed

lemmas scene_defs = near_wall_view_def corridor_view_def corridor_def red_wall_def

text \<open>
  Half a cell from the end wall, in a buffer of 4 rows: the top pixel of the strip is the
  texture's \<open>(100, 0, 0)\<close> darkened by \<open>exp (- 0.5 * 0.05)\<close>.
\<close>

theorem fog_shading_witness:
  "\<exists>s'. cast_ray 0 near_wall_view = Inr s'
     \<and> distance_at 0 near_wall_view = Inr (Some (Fin (1 / 2)))
     \<and> u_colors s' ! 0 ! 0 = (nat \<lfloor>min 255 (max 0 (100 * exp (- (1 / 2) * (5 / 100) :: real)))\<rfloor>, 0, 0)"
proof -
  have shape: "\<forall>row \<in> set (u_colors near_wall_view). 0 < length row"
    unfolding scene_defs by (simp add: eval_defs)
  have hit: "cast 0 near_wall_view = Inr (Some (0, 1), (Fin (3 / 2), Fin 9), 8, 1)"
    unfolding scene_defs by (simp add: eval_defs)
  have "\<exists>s'. cast_ray 0 near_wall_view = Inr s'"
    unfolding scene_defs by (simp add: eval_defs)
  then obtain s' where ok: "cast_ray 0 near_wall_view = Inr s'" ..
  have dist: "distance_at 0 near_wall_view = Inr (Some (Fin (1 / 2)))"
    unfolding scene_defs by (simp add: eval_defs)
  from fog_shading [OF shape hit ok] obtain d ch hc start stop texture tex_x tex_ys where
    f: "distance_at 0 near_wall_view = Inr (Some (Fin d))"
       "column_height_of (length (u_colors near_wall_view)) (Fin d) = Inr ch"
       "column_extent (length (u_colors near_wall_view)) ch = (hc, start, stop)"
       "py_index (if (0::nat) \<noteq> 0 then textures near_wall_view else light_textures near_wall_view) (1 - 1)
             = Inr texture"
       "texture_x 0 (wall_x_of (camera_pos near_wall_view) (Fin d) (u_rotated_angles near_wall_view ! 0) 0)
              (tex_width texture) (coord 0 (u_rotated_angles near_wall_view ! 0)) = Inr tex_x"
       "texture_rows ch start stop (tex_height texture) = Inr tex_ys"
    and pix: "\<And>y. start \<le> y \<and> y < stop \<Longrightarrow>
               (\<exists>r g b. py_index2 texture (tex_ys ! nat (y - start)) tex_x = Inr (r, g, b)
                  \<and> u_colors s' ! nat y ! 0 =
                      (nat \<lfloor>min 255 (max 0 (real r * exp (- d * (5 / 100))))\<rfloor>,
                       nat \<lfloor>min 255 (max 0 (real g * exp (- d * (5 / 100))))\<rfloor>,
                       nat \<lfloor>min 255 (max 0 (real b * exp (- d * (5 / 100))))\<rfloor>))"
    by blast
  from f(1) dist have d: "d = 1 / 2" by simp
  from f(2) have ch: "ch = 8"
    unfolding d scene_defs by (simp add: eval_defs)
  from f(3) have ext: "start = 0" "stop = 4"
    unfolding ch scene_defs by (simp_all add: eval_defs)
  from f(4) have tex: "texture = red_wall"
    unfolding scene_defs by (simp add: eval_defs)
  from f(5) have tx: "tex_x = 1"
    unfolding d tex scene_defs by (simp add: eval_defs)
  from f(6) have tys: "tex_ys = [0, 0, 1, 1]"
    unfolding ch ext tex scene_defs by (simp add: eval_defs)
  from pix [of 0] obtain r g b where
    p: "py_index2 texture (tex_ys ! nat (0 - start)) tex_x = Inr (r, g, b)"
       "u_colors s' ! nat 0 ! 0 =
          (nat \<lfloor>min 255 (max 0 (real r * exp (- d * (5 / 100))))\<rfloor>,
           nat \<lfloor>min 255 (max 0 (real g * exp (- d * (5 / 100))))\<rfloor>,
           nat \<lfloor>min 255 (max 0 (real b * exp (- d * (5 / 100))))\<rfloor>)"
    unfolding ext by auto
  from p(1) have rgb: "r = 100" "g = 0" "b = 0"
    unfolding ext tex tx tys red_wall_def by (simp_all add: py_index2_def py_index_def bind_def)
  have "u_colors s' ! 0 ! 0 = (nat \<lfloor>min 255 (max 0 (100 * exp (- (1 / 2) * (5 / 100) :: real)))\<rfloor>, 0, 0)"
    using p(2) unfolding rgb d by simp
  with ok dist show ?thesis by blast
qed

subsection \<open>Columns without a hit\<close>

lemmas frame_defs =
  long_corridor_view_def flat_corridor_view_def long_corridor_def sky_def red_wall_def
  frame1_def frame2_def

lemma darken_near: "195 \<le> darken (1 / 2) 200 \<and> darken (1 / 2) 200 < 200"
proof -
  have a: "1 + (- (1 / 40)) \<le> exp (- (1 / 40) :: real)" by (rule exp_ge_add_one_self)
  have b: "exp (- (1 / 40) :: real) < 1" by simp
  have c: "(195 :: real) \<le> 200 * exp (- (1 / 40))" using a by simp
  have d: "200 * exp (- (1 / 40) :: real) < 200" using b by simp
  have m: "min 255 (max 0 (200 * exp (- (1 / 40) :: real))) = 200 * exp (- (1 / 40))"
    using c d by linarith
  have e: "darken (1 / 2) 200 = nat \<lfloor>200 * exp (- (1 / 40) :: real)\<rfloor>"
    unfolding darken_def using m by simp
  have "195 \<le> \<lfloor>200 * exp (- (1 / 40) :: real)\<rfloor>" using c by (simp add: le_floor_iff)
  moreover have "\<lfloor>200 * exp (- (1 / 40) :: real)\<rfloor> < 200" using d by (simp add: floor_less_iff)
  ultimately show ?thesis unfolding e by arith
qed

text \<open>
  With a colour for the ceiling and a colour for the floor, the column of a ray that
  finds no wall holds the two colours (lines 234 to 236 fill both halves).
\<close>

lemma flat_colours_without_hit:
  "distance_at 0 (prepare_rays (flat_corridor_view (3 / 2, 3 / 2))) = Inr None
   \<and> map_sum id u_colors (render (flat_corridor_view (3 / 2, 3 / 2)))
     = Inr [[(1, 1, 1)], [(1, 1, 1)], [(2, 2, 2)], [(2, 2, 2)]]"
  unfolding frame_defs by (simp add: eval_defs)

text \<open>
  C2. A column whose ray finds no wall within \<open>HOPS\<close> steps is not an error, but it
  does not always hold ceiling and floor: with a texture for the ceiling, lines 237
  to 241 fill the floor's half only, and \<open>cast_ray\<close> returns at line 124 before it
  paints anything. In the long corridor the first frame paints the wall over the whole
  column; in the second frame the ray finds no wall, the render succeeds, the lower
  half holds the floor's colour \<open>(2, 2, 2)\<close>, and the upper half still holds the wall of
  the first frame (red of 195 or more), not the ceiling's texture \<open>(10, 20, 30)\<close> nor
  its colour \<open>(1, 1, 1)\<close>.
\<close>

theorem stale_wall_pixels_without_hit:
  "map_sum id u_colors frame1
     = Inr [[(darken (1 / 2) 200, 0, 0)], [(darken (1 / 2) 200, 0, 0)],
            [(darken (1 / 2) 50, 0, 0)], [(darken (1 / 2) 50, 0, 0)]]
   \<and> bind frame1 (\<lambda>s. distance_at 0 (prepare_rays (s\<lparr>camera_pos := (3 / 2, 3 / 2)\<rparr>))) = Inr None
   \<and> map_sum id u_colors frame2
     = Inr [[(darken (1 / 2) 200, 0, 0)], [(darken (1 / 2) 200, 0, 0)], [(2, 2, 2)], [(2, 2, 2)]]
   \<and> 195 \<le> darken (1 / 2) 200"
proof -
  have "map_sum id u_colors frame1
     = Inr [[(darken (1 / 2) 200, 0, 0)], [(darken (1 / 2) 200, 0, 0)],
            [(darken (1 / 2) 50, 0, 0)], [(darken (1 / 2) 50, 0, 0)]]"
    unfolding frame_defs by (simp add: eval_defs)
  moreover have "bind frame1 (\<lambda>s. distance_at 0 (prepare_rays (s\<lparr>camera_pos := (3 / 2, 3 / 2)\<rparr>)))
     = Inr None"
    unfolding frame_defs by (simp add: eval_defs)
  moreover have "map_sum id u_colors frame2
     = Inr [[(darken (1 / 2) 200, 0, 0)], [(darken (1 / 2) 200, 0, 0)], [(2, 2, 2)], [(2, 2, 2)]]"
    unfolding frame_defs by (simp add: eval_defs)
  ultimately show ?thesis using darken_near by blast
qed

subsection \<open>Two frames\<close>

lemma overlay_length [simp]: "length (overlay M cs) = length cs"
  by (simp add: overlay_def)

lemma overlay_row_length [simp]: "y < length cs \<Longrightarrow> length (overlay M cs ! y) = length (cs ! y)"
  by (simp add: overlay_def)

lemma overlay_nth:
  "y < length cs \<Longrightarrow> x < length (cs ! y) \<Longrightarrow>
   overlay M cs ! y ! x = (case M y x of Some v \<Rightarrow> v | None \<Rightarrow> cs ! y ! x)"
  by (simp add: overlay_def split: option.splits)

lemma overlay_shape [simp]: "map length (overlay M cs) = map length cs"
  by (rule nth_equalityI) simp_all

lemma list2_eqI:
  assumes "length a = length b"
    and "\<And>y. y < length b \<Longrightarrow> length (a ! y) = length (b ! y)"
    and "\<And>y x. y < length b \<Longrightarrow> x < length (b ! y) \<Longrightarrow> a ! y ! x = b ! y ! x"
  shows "a = b"
proof (rule nth_equalityI)
  show "length a = length b" by (rule assms(1))
next
  fix y assume "y < length a"
  then have y: "y < length b" using assms(1) by simp
  show "a ! y = b ! y"
  proof (rule nth_equalityI)
    show "length (a ! y) = length (b ! y)" using y by (rule assms(2))
  next
    fix x assume "x < length (a ! y)"
    then have "x < length (b ! y)" using assms(2) [OF y] by simp
    with y show "a ! y ! x = b ! y ! x" by (rule assms(3))
  qed
qed

lemma overlay_overlay:
  "overlay M2 (overlay M1 cs) =
   overlay (\<lambda>y x. case M2 y x of Some v \<Rightarrow> Some v | None \<Rightarrow> M1 y x) cs"
  by (rule list2_eqI) (simp_all add: overlay_nth split: option.splits)

lemma overlay_None: "overlay (\<lambda>y x. None) cs = cs"
  by (rule list2_eqI) (simp_all add: overlay_nth)

lemma overlay_idem: "overlay M (overlay M cs) = overlay M cs"
  by (rule list2_eqI) (simp_all add: overlay_nth split: option.splits)

lemma set_rows_overlay:
  "set_rows lo hi col f cs =
   overlay (\<lambda>y x. if lo \<le> y \<and> y < hi \<and> x = col then Some (f (y - lo)) else None) cs"
  by (rule list2_eqI) (simp_all add: overlay_nth set_rows_nth nth_list_update)

lemma fill_rows_overlay:
  "fill_rows lo hi v cs = overlay (\<lambda>y x. if lo \<le> y \<and> y < hi then Some v else None) cs"
  by (rule list2_eqI) (simp_all add: overlay_nth fill_rows_def)

lemma shape_length: "map length cs = shp \<Longrightarrow> length cs = length shp"
  by auto

lemma writes_only_cong:
  assumes "\<And>cs. map length cs = shp \<Longrightarrow> G cs = G' cs" and "writes_only shp G'"
  shows "writes_only shp G"
proof -
  from assms(2) consider (err) e where "\<forall>cs. map length cs = shp \<longrightarrow> G' cs = Inl e"
    | (ok) M where "\<forall>cs. map length cs = shp \<longrightarrow> G' cs = Inr (overlay M cs)"
    unfolding writes_only_def by blast
  then show ?thesis
  proof cases
    case err
    then have "\<forall>cs. map length cs = shp \<longrightarrow> G cs = Inl e" using assms(1) by simp
    then show ?thesis unfolding writes_only_def by blast
  next
    case ok
    then have "\<forall>cs. map length cs = shp \<longrightarrow> G cs = Inr (overlay M cs)" using assms(1) by simp
    then show ?thesis unfolding writes_only_def by blast
  qed
qed

lemma writes_only_error: "writes_only shp (\<lambda>cs. Inl e)"
  unfolding writes_only_def by blast

lemma writes_only_overlay: "writes_only shp (\<lambda>cs. Inr (overlay M cs))"
  unfolding writes_only_def by blast

lemma writes_only_return: "writes_only shp Inr"
proof -
  have "\<forall>cs. map length cs = shp \<longrightarrow> Inr cs = Inr (overlay (\<lambda>y x. None) cs)"
    by (simp add: overlay_None)
  then show ?thesis unfolding writes_only_def by blast
qed

lemma writes_only_bind:
  assumes a: "writes_only shp A" and k: "writes_only shp K"
  shows "writes_only shp (\<lambda>cs. bind (A cs) K)"
proof -
  from a consider (err) e where "\<forall>cs. map length cs = shp \<longrightarrow> A cs = Inl e"
    | (ok) M where "\<forall>cs. map length cs = shp \<longrightarrow> A cs = Inr (overlay M cs)"
    unfolding writes_only_def by blast
  then show ?thesis
  proof cases
    case err
    then have "\<forall>cs. map length cs = shp \<longrightarrow> bind (A cs) K = Inl e"
      by (simp add: bind_def)
    then show ?thesis unfolding writes_only_def by blast
  next
    case ok
    from k consider (kerr) e where "\<forall>cs. map length cs = shp \<longrightarrow> K cs = Inl e"
      | (kok) M' where "\<forall>cs. map length cs = shp \<longrightarrow> K cs = Inr (overlay M' cs)"
      unfolding writes_only_def by blast
    then show ?thesis
    proof cases
      case kerr
      have "\<forall>cs. map length cs = shp \<longrightarrow> bind (A cs) K = Inl e"
        using ok kerr by (simp add: bind_def)
      then show ?thesis unfolding writes_only_def by blast
    next
      case kok
      have "\<forall>cs. map length cs = shp \<longrightarrow>
              bind (A cs) K =
              Inr (overlay (\<lambda>y x. case M' y x of Some v \<Rightarrow> Some v | None \<Rightarrow> M y x) cs)"
        using ok kok by (simp add: bind_def overlay_overlay)
      then show ?thesis unfolding writes_only_def by blast
    qed
  qed
qed

lemma writes_only_pure_bind:
  assumes "\<And>x. m = Inr x \<Longrightarrow> writes_only shp (K x)"
  shows "writes_only shp (\<lambda>cs. bind m (\<lambda>x. K x cs))"
proof (cases m)
  case (Inl e)
  then show ?thesis by (simp add: bind_def writes_only_error)
next
  case (Inr x)
  with assms [OF Inr] show ?thesis by (simp add: bind_def)
qed

lemma writes_only_assign_column:
  "writes_only shp (\<lambda>cs. assign_column w a (b (length cs)) col vals cs)"
proof -
  let ?lo = "slice_bound (length shp) a" and ?hi = "slice_bound (length shp) (b (length shp))"
  have "\<And>cs. map length cs = shp \<Longrightarrow>
      assign_column w a (b (length cs)) col vals cs =
        (if \<not> col < w then Inl IndexError
         else if length vals = ?hi - ?lo then Inr (set_rows ?lo ?hi col (\<lambda>k. vals ! k) cs)
         else if length vals = 1 then Inr (set_rows ?lo ?hi col (\<lambda>k. vals ! 0) cs)
         else Inl ValueError)"
  proof -
    fix cs :: "'a list list" assume "map length cs = shp"
    then have l: "length cs = length shp" by auto
    show "assign_column w a (b (length cs)) col vals cs =
        (if \<not> col < w then Inl IndexError
         else if length vals = ?hi - ?lo then Inr (set_rows ?lo ?hi col (\<lambda>k. vals ! k) cs)
         else if length vals = 1 then Inr (set_rows ?lo ?hi col (\<lambda>k. vals ! 0) cs)
         else Inl ValueError)"
      unfolding assign_column_def Let_def l by (rule refl)
  qed
  then show ?thesis
  proof (rule writes_only_cong)
    show "writes_only shp (\<lambda>cs.
        if \<not> col < w then Inl IndexError
         else if length vals = ?hi - ?lo then Inr (set_rows ?lo ?hi col (\<lambda>k. vals ! k) cs)
         else if length vals = 1 then Inr (set_rows ?lo ?hi col (\<lambda>k. vals ! 0) cs)
         else Inl ValueError)"
      by (cases "col < w"; cases "length vals = ?hi - ?lo"; cases "length vals = 1")
         (simp_all add: set_rows_overlay writes_only_error writes_only_overlay)
  qed
qed

lemma writes_only_fill_column:
  "writes_only shp (\<lambda>cs. fill_column w a (b (length cs)) col v cs)"
proof -
  let ?lo = "slice_bound (length shp) a" and ?hi = "slice_bound (length shp) (b (length shp))"
  have "\<And>cs. map length cs = shp \<Longrightarrow>
      fill_column w a (b (length cs)) col v cs =
        (if \<not> col < w then Inl IndexError else Inr (set_rows ?lo ?hi col (\<lambda>k. v) cs))"
  proof -
    fix cs :: "'a list list" assume "map length cs = shp"
    then have l: "length cs = length shp" by auto
    show "fill_column w a (b (length cs)) col v cs =
        (if \<not> col < w then Inl IndexError else Inr (set_rows ?lo ?hi col (\<lambda>k. v) cs))"
      unfolding fill_column_def l by (rule refl)
  qed
  then show ?thesis
  proof (rule writes_only_cong)
    show "writes_only shp (\<lambda>cs.
        if \<not> col < w then Inl IndexError else Inr (set_rows ?lo ?hi col (\<lambda>k. v) cs))"
      by (cases "col < w") (simp_all add: set_rows_overlay writes_only_error writes_only_overlay)
  qed
qed


lemma wo_fill_const: "writes_only shp (\<lambda>cs. fill_column w a b col v cs)"
  using writes_only_fill_column [where b = "\<lambda>n. b"] .

lemma wo_fill_len: "writes_only shp (\<lambda>cs. fill_column w a (int (length cs)) col v cs)"
  using writes_only_fill_column [where b = "\<lambda>n. int n"] .

lemma wo_assign_const: "writes_only shp (\<lambda>cs. assign_column w a b col vals cs)"
  using writes_only_assign_column [where b = "\<lambda>n. b"] .

lemma wo_assign_len: "writes_only shp (\<lambda>cs. assign_column w a (int (length cs)) col vals cs)"
  using writes_only_assign_column [where b = "\<lambda>n. int n"] .

lemma wo_let_const:
  "writes_only shp (\<lambda>cs. F v cs) \<Longrightarrow> writes_only shp (\<lambda>cs. Let v (\<lambda>x. F x cs))"
  by (simp add: Let_def)

lemma wo_length_let:
  assumes "\<And>h. writes_only shp (\<lambda>cs. F h cs)"
  shows "writes_only shp (\<lambda>cs. Let (length cs) (\<lambda>h. F h cs))"
proof (rule writes_only_cong)
  fix cs :: "'a list list" assume "map length cs = shp"
  then have "length cs = length shp" by auto
  then show "Let (length cs) (\<lambda>h. F h cs) = F (length shp) cs" by (simp add: Let_def)
next
  show "writes_only shp (F (length shp))" using assms [of "length shp"] .
qed

lemma wo_case_option:
  assumes "x = None \<Longrightarrow> writes_only shp (\<lambda>cs. A cs)"
    and "\<And>v. x = Some v \<Longrightarrow> writes_only shp (\<lambda>cs. B v cs)"
  shows "writes_only shp (\<lambda>cs. case x of None \<Rightarrow> A cs | Some v \<Rightarrow> B v cs)"
  using assms by (cases x) simp_all

lemma wo_if:
  assumes "c \<Longrightarrow> writes_only shp (\<lambda>cs. A cs)" and "\<not> c \<Longrightarrow> writes_only shp (\<lambda>cs. B cs)"
  shows "writes_only shp (\<lambda>cs. if c then A cs else B cs)"
  using assms by (cases c) simp_all

lemma writes_only_paint_planes:
  "writes_only shp (\<lambda>cs. paint_planes column side ra rp hc start stop d wx s cs)"
  unfolding paint_planes_def [abs_def] Let_def
  by (intro wo_if writes_only_bind writes_only_pure_bind wo_case_option
            wo_fill_const wo_fill_len wo_assign_const wo_assign_len)

lemma writes_only_paint_column:
  "writes_only shp (\<lambda>cs. paint_column column side ti ra st rp s cs)"
  unfolding paint_column_def [abs_def]
  apply (rule wo_let_const)
  apply (rule wo_let_const)
  apply (rule wo_length_let)
  apply (simp only: Let_def case_prod_beta)
  apply (intro writes_only_pure_bind)
  apply (rule writes_only_bind)
   apply (rule wo_assign_const)
  apply (rule writes_only_paint_planes)
  done

lemma cast_vary: "cast column (vary s cs p k) = cast column s"
  by (simp add: cast_def vary_def)

lemma paint_planes_scene:
  assumes "width t = width s" and "ceiling_tex t = ceiling_tex s" and "floor_tex t = floor_tex s"
    and "ceiling_color t = ceiling_color s" and "floor_color t = floor_color s"
    and "camera_pos t = camera_pos s" and "u_distances t = u_distances s"
  shows "paint_planes column side ra rp hc start stop d wx t cs
         = paint_planes column side ra rp hc start stop d wx s cs"
  unfolding paint_planes_def assms ..

lemma paint_column_scene:
  assumes "width t = width s" and "ceiling_tex t = ceiling_tex s" and "floor_tex t = floor_tex s"
    and "ceiling_color t = ceiling_color s" and "floor_color t = floor_color s"
    and "camera_pos t = camera_pos s" and "u_distances t = u_distances s"
    and "textures t = textures s" and "light_textures t = light_textures s"
  shows "paint_column column side ti ra st rp t cs = paint_column column side ti ra st rp s cs"
  unfolding paint_column_def assms paint_planes_scene [OF assms(1-7)] ..

lemma paint_column_vary:
  "paint_column column side ti ra st rp (vary s cs p k\<lparr>u_pos_int := rp', u_sides := sd\<rparr>) cs'
   = paint_column column side ti ra st rp s cs'"
  by (rule paint_column_scene) (simp_all add: vary_def)

lemma cast_ray_vary:
  "cast_ray column (vary s cs p k) =
     bind (cast column s) (\<lambda>(hit, sides, rp).
       case hit of
         None \<Rightarrow> Inr (vary (s\<lparr>u_sides := (u_sides s)[column := sides]\<rparr>) cs rp k)
       | Some (side, ti) \<Rightarrow>
           bind (paint_column column side ti (u_rotated_angles s ! column) (u_steps s ! column)
                   rp s cs)
             (\<lambda>cs'. Inr (vary (s\<lparr>u_sides := (u_sides s)[column := sides]\<rparr>) cs' rp k)))"
proof (cases "cast column s")
  case (Inl e)
  then show ?thesis by (simp add: cast_ray_def cast_vary bind_def)
next
  case (Inr r)
  obtain hit sides rp where r: "r = (hit, sides, rp)" by (cases r) auto
  let ?T = "vary s cs p k\<lparr>u_pos_int := rp, u_sides := (u_sides (vary s cs p k))[column := sides]\<rparr>"
  have T: "u_colors ?T = cs" "u_rotated_angles ?T = u_rotated_angles s" "u_steps ?T = u_steps s"
    "?T = vary (s\<lparr>u_sides := (u_sides s)[column := sides]\<rparr>) cs rp k"
    "\<And>cs'. ?T\<lparr>u_colors := cs'\<rparr> = vary (s\<lparr>u_sides := (u_sides s)[column := sides]\<rparr>) cs' rp k"
    by (simp_all add: vary_def)
  have pc: "paint_column column side ti ra st rp' ?T = paint_column column side ti ra st rp' s"
    for side ti ra st rp'
    by (rule ext, rule paint_column_scene) (simp_all add: vary_def)
  show ?thesis
  proof (cases hit)
    case None
    have "cast_ray column (vary s cs p k) = Inr ?T"
      using Inr r None by (simp add: cast_ray_def cast_vary bind_def Let_def)
    then show ?thesis using Inr r None T(4) by (simp add: bind_def)
  next
    case (Some h)
    obtain side ti where h: "h = (side, ti)" by (cases h) auto
    have "cast_ray column (vary s cs p k) =
          bind (paint_column column side ti (u_rotated_angles ?T ! column) (u_steps ?T ! column)
                  rp ?T (u_colors ?T)) (\<lambda>cs'. Inr (?T\<lparr>u_colors := cs'\<rparr>))"
      using Inr r Some h by (simp add: cast_ray_def cast_vary bind_def Let_def)
    also have "\<dots> = bind (paint_column column side ti (u_rotated_angles s ! column)
                  (u_steps s ! column) rp s cs)
             (\<lambda>cs'. Inr (vary (s\<lparr>u_sides := (u_sides s)[column := sides]\<rparr>) cs' rp k))"
      unfolding pc T(1,2,3,5) ..
    finally show ?thesis using Inr r Some h by (simp add: bind_def)
  qed
qed

lemma frame_oblivious_cast_ray: "frame_oblivious (cast_ray column)"
  unfolding frame_oblivious_def
proof
  fix s :: raycaster
  let ?shp = "map length (u_colors s)"
  show "(\<exists>e. \<forall>cs p k. map length cs = ?shp \<longrightarrow> cast_ray column (vary s cs p k) = Inl e)
        \<or> (\<exists>M sd. \<forall>cs p k. map length cs = ?shp \<longrightarrow>
               (\<exists>p'. cast_ray column (vary s cs p k)
                      = Inr (vary (s\<lparr>u_sides := sd\<rparr>) (overlay M cs) p' k)))"
  proof (cases "cast column s")
    case (Inl e)
    then have "\<forall>cs p k. map length cs = ?shp \<longrightarrow> cast_ray column (vary s cs p k) = Inl e"
      by (simp add: cast_ray_vary bind_def)
    then show ?thesis by blast
  next
    case (Inr r)
    obtain hit sides rp where r: "r = (hit, sides, rp)" by (cases r) auto
    let ?sd = "(u_sides s)[column := sides]"
    show ?thesis
    proof (cases hit)
      case None
      have "cast_ray column (vary s cs p k)
              = Inr (vary (s\<lparr>u_sides := ?sd\<rparr>) (overlay (\<lambda>y x. None) cs) rp k)" for cs p k
        using Inr r None by (simp add: cast_ray_vary bind_def overlay_None)
      then show ?thesis by blast
    next
      case (Some h)
      obtain side ti where h: "h = (side, ti)" by (cases h) auto
      let ?P = "paint_column column side ti (u_rotated_angles s ! column) (u_steps s ! column) rp s"
      have eq: "cast_ray column (vary s cs p k) =
                bind (?P cs) (\<lambda>cs'. Inr (vary (s\<lparr>u_sides := ?sd\<rparr>) cs' rp k))" for cs p k
        using Inr r Some h by (simp add: cast_ray_vary bind_def)
      have "writes_only ?shp (\<lambda>cs. ?P cs)" by (rule writes_only_paint_column)
      then consider (err) e where "\<forall>cs. map length cs = ?shp \<longrightarrow> ?P cs = Inl e"
        | (ok) M where "\<forall>cs. map length cs = ?shp \<longrightarrow> ?P cs = Inr (overlay M cs)"
        unfolding writes_only_def by blast
      then show ?thesis
      proof cases
        case err
        then have "\<forall>cs p k. map length cs = ?shp \<longrightarrow> cast_ray column (vary s cs p k) = Inl e"
          by (simp add: eq bind_def)
        then show ?thesis by blast
      next
        case ok
        then have "\<forall>cs p k. map length cs = ?shp \<longrightarrow>
              cast_ray column (vary s cs p k)
                     = Inr (vary (s\<lparr>u_sides := ?sd\<rparr>) (overlay M cs) rp k)"
          by (simp add: eq bind_def)
        then show ?thesis by blast
      qed
    qed
  qed
qed


lemma vary_fields [simp]:
  "u_colors (vary s cs p k) = cs" "colors (vary s cs p k) = k" "height (vary s cs p k) = height s"
  "width (vary s cs p k) = width s"
  by (simp_all add: vary_def)

lemma vary_sides_again:
  "vary (s\<lparr>u_sides := sd\<rparr>) cs p k\<lparr>u_sides := sd'\<rparr> = vary (s\<lparr>u_sides := sd'\<rparr>) cs p k"
  "vary (vary s cs p k) cs' p' k' = vary s cs' p' k'"
  by (simp_all add: vary_def)

lemma frame_oblivious_return: "frame_oblivious Inr"
  unfolding frame_oblivious_def
proof
  fix s :: raycaster
  have "Inr (vary s cs p k)
        = (Inr (vary (s\<lparr>u_sides := u_sides s\<rparr>) (overlay (\<lambda>y x. None) cs) p k)
           :: raycaster result)" for cs p k
    by (simp add: overlay_None)
  then show "(\<exists>e. \<forall>cs p k. map length cs = map length (u_colors s) \<longrightarrow> Inr (vary s cs p k) = (Inl e :: raycaster result))
        \<or> (\<exists>M sd. \<forall>cs p k. map length cs = map length (u_colors s) \<longrightarrow>
               (\<exists>p'. Inr (vary s cs p k) = (Inr (vary (s\<lparr>u_sides := sd\<rparr>) (overlay M cs) p' k) :: raycaster result)))"
    by blast
qed

lemma frame_oblivious_bind:
  assumes g: "frame_oblivious G" and h: "frame_oblivious H"
  shows "frame_oblivious (\<lambda>s. bind (G s) H)"
  unfolding frame_oblivious_def
proof
  fix s :: raycaster
  let ?shp = "map length (u_colors s)"
  from g [unfolded frame_oblivious_def, rule_format, of s]
  consider (err) e where "\<forall>cs p k. map length cs = ?shp \<longrightarrow> G (vary s cs p k) = Inl e"
    | (ok) M sd where "\<forall>cs p k. map length cs = ?shp \<longrightarrow>
               (\<exists>p'. G (vary s cs p k) = Inr (vary (s\<lparr>u_sides := sd\<rparr>) (overlay M cs) p' k))"
    by blast
  then show "(\<exists>e. \<forall>cs p k. map length cs = ?shp \<longrightarrow> bind (G (vary s cs p k)) H = Inl e)
        \<or> (\<exists>M sd. \<forall>cs p k. map length cs = ?shp \<longrightarrow>
               (\<exists>p'. bind (G (vary s cs p k)) H
                      = Inr (vary (s\<lparr>u_sides := sd\<rparr>) (overlay M cs) p' k)))"
  proof cases
    case err
    then have "\<forall>cs p k. map length cs = ?shp \<longrightarrow> bind (G (vary s cs p k)) H = Inl e"
      by (simp add: bind_def)
    then show ?thesis by blast
  next
    case ok
    let ?s' = "s\<lparr>u_sides := sd\<rparr>"
    have shp': "map length (u_colors ?s') = ?shp" by simp
    from h [unfolded frame_oblivious_def, rule_format, of ?s', unfolded shp']
    consider (herr) e where "\<forall>cs p k. map length cs = ?shp \<longrightarrow> H (vary ?s' cs p k) = Inl e"
      | (hok) M' sd' where "\<forall>cs p k. map length cs = ?shp \<longrightarrow>
               (\<exists>p'. H (vary ?s' cs p k) = Inr (vary (?s'\<lparr>u_sides := sd'\<rparr>) (overlay M' cs) p' k))"
      by blast
    then show ?thesis
    proof cases
      case herr
      have "bind (G (vary s cs p k)) H = Inl e" if c: "map length cs = ?shp" for cs p k
      proof -
        from ok c obtain p' where "G (vary s cs p k) = Inr (vary ?s' (overlay M cs) p' k)" by blast
        moreover have "map length (overlay M cs) = ?shp" using c by simp
        with herr have "H (vary ?s' (overlay M cs) p' k) = Inl e" by blast
        ultimately show ?thesis by (simp add: bind_def)
      qed
      then show ?thesis by blast
    next
      case hok
      let ?N = "\<lambda>y x. case M' y x of Some v \<Rightarrow> Some v | None \<Rightarrow> M y x"
      have "\<exists>p''. bind (G (vary s cs p k)) H = Inr (vary (s\<lparr>u_sides := sd'\<rparr>) (overlay ?N cs) p'' k)"
        if c: "map length cs = ?shp" for cs p k
      proof -
        from ok c obtain p' where g1: "G (vary s cs p k) = Inr (vary ?s' (overlay M cs) p' k)" by blast
        have "map length (overlay M cs) = ?shp" using c by simp
        with hok obtain p'' where
          "H (vary ?s' (overlay M cs) p' k) = Inr (vary (?s'\<lparr>u_sides := sd'\<rparr>) (overlay M' (overlay M cs)) p'' k)"
          by blast
        then have "bind (G (vary s cs p k)) H = Inr (vary (s\<lparr>u_sides := sd'\<rparr>) (overlay ?N cs) p'' k)"
          using g1 by (simp add: bind_def overlay_overlay)
        then show ?thesis by blast
      qed
      then show ?thesis by blast
    qed
  qed
qed

lemma frame_oblivious_cast_rays: "frame_oblivious (cast_rays columns)"
proof (induction columns)
  case Nil
  have "cast_rays [] = Inr" by (rule ext) simp
  then show ?case by (simp add: frame_oblivious_return)
next
  case (Cons c columns)
  have "cast_rays (c # columns) = (\<lambda>s. bind (cast_ray c s) (cast_rays columns))"
    by (rule ext) simp
  then show ?case
    using frame_oblivious_bind [OF frame_oblivious_cast_ray Cons.IH] by simp
qed


lemma prime_colors_overlay:
  "\<exists>Mp. \<forall>t. ceiling_tex t = ceiling_tex s \<and> floor_tex t = floor_tex s
           \<and> ceiling_color t = ceiling_color s \<and> floor_color t = floor_color s
           \<and> height t = height s \<and> length (u_colors t) = n
         \<longrightarrow> prime_colors t = overlay Mp (u_colors t)"
proof -
  let ?h = "slice_bound n (int (height s))"
  let ?C = "\<lambda>y x :: nat. if 0 \<le> y \<and> y < ?h then Some (ceiling_color s) else None"
  let ?F = "\<lambda>y x :: nat. if ?h \<le> y \<and> y < n then Some (floor_color s) else None"
  let ?Mp = "if ceiling_tex s = None \<and> floor_tex s = None
             then (\<lambda>y x. case ?F y x of Some v \<Rightarrow> Some v | None \<Rightarrow> ?C y x)
             else if ceiling_tex s = None then ?C
             else if floor_tex s = None then ?F
             else (\<lambda>y x. None)"
  have "prime_colors t = overlay ?Mp (u_colors t)"
    if "ceiling_tex t = ceiling_tex s" "floor_tex t = floor_tex s"
       "ceiling_color t = ceiling_color s" "floor_color t = floor_color s"
       "height t = height s" "length (u_colors t) = n" for t
    unfolding prime_colors_def Let_def that fill_rows_overlay overlay_overlay
    by (cases "ceiling_tex s = None"; cases "floor_tex s = None";
        simp only: overlay_None if_True if_False simp_thms)
  then show ?thesis by blast
qed

lemma prepare_rays_vary:
  "prepare_rays (vary (prepare_rays s\<lparr>u_sides := sd\<rparr>) cs p k\<lparr>u_colors := cs'\<rparr>)
   = vary (prepare_rays s) cs' p k"
  "prepare_rays (s\<lparr>u_colors := cs'\<rparr>) = vary (prepare_rays s) cs' (u_pos_int s) (colors s)"
  by (simp_all add: prepare_rays_def vary_def Let_def)

lemma prepare_rays_fields:
  "u_colors (prepare_rays s) = u_colors s" "width (prepare_rays s) = width s"
  "height (prepare_rays s) = height s" "ceiling_tex (prepare_rays s) = ceiling_tex s"
  "floor_tex (prepare_rays s) = floor_tex s" "ceiling_color (prepare_rays s) = ceiling_color s"
  "floor_color (prepare_rays s) = floor_color s"
  by (simp_all add: prepare_rays_def Let_def)

text \<open>
  A render that succeeds, called again on the object it leaves, succeeds again and
  leaves the same colour buffer and the same \<open>colors\<close>: a second frame with nothing
  changed in between is the first one.
\<close>

theorem render_idempotent:
  assumes "render s = Inr s1"
  shows "\<exists>s2. render s1 = Inr s2 \<and> u_colors s2 = u_colors s1 \<and> colors s2 = colors s1"
proof -
  let ?B = "prepare_rays s"
  let ?cols = "[0..<width s]"
  let ?cs0 = "u_colors s"
  let ?shp = "map length ?cs0"
  obtain Mp where Mp: "\<And>t. ceiling_tex t = ceiling_tex s \<Longrightarrow> floor_tex t = floor_tex s
           \<Longrightarrow> ceiling_color t = ceiling_color s \<Longrightarrow> floor_color t = floor_color s
           \<Longrightarrow> height t = height s \<Longrightarrow> length (u_colors t) = length ?cs0
           \<Longrightarrow> prime_colors t = overlay Mp (u_colors t)"
    using prime_colors_overlay [of s "length ?cs0"] by blast
  have p0: "prime_colors s = overlay Mp ?cs0" by (rule Mp) simp_all
  have r1: "render s = bind (cast_rays ?cols (vary ?B (overlay Mp ?cs0) (u_pos_int s) (colors s)))
      (\<lambda>r. if length (u_colors r) = 2 * height r then Inr (r\<lparr>colors := pack_colors (u_colors r)\<rparr>)
            else Inl ValueError)"
    by (simp add: render_def p0 prepare_rays_vary(2))
  have shpB: "map length (u_colors ?B) = ?shp" by (simp add: prepare_rays_fields)
  from frame_oblivious_cast_rays [of ?cols, unfolded frame_oblivious_def, rule_format, of ?B, unfolded shpB]
  consider (err) e where "\<forall>cs p k. map length cs = ?shp \<longrightarrow> cast_rays ?cols (vary ?B cs p k) = Inl e"
    | (ok) M sd where "\<forall>cs p k. map length cs = ?shp \<longrightarrow>
         (\<exists>p'. cast_rays ?cols (vary ?B cs p k) = Inr (vary (?B\<lparr>u_sides := sd\<rparr>) (overlay M cs) p' k))"
    by blast
  then show ?thesis
  proof cases
    case err
    have "map length (overlay Mp ?cs0) = ?shp" by simp
    with err have "cast_rays ?cols (vary ?B (overlay Mp ?cs0) (u_pos_int s) (colors s)) = Inl e"
      by blast
    with assms show ?thesis by (simp add: r1 bind_def)
  next
    case ok
    let ?N = "\<lambda>y x. case M y x of Some v \<Rightarrow> Some v | None \<Rightarrow> Mp y x"
    let ?C1 = "overlay ?N ?cs0"
    have NN: "overlay M (overlay Mp cs) = overlay ?N cs" for cs :: "rgb list list"
      by (rule overlay_overlay)
    have run: "\<exists>p'. cast_rays ?cols (vary ?B (overlay Mp cs) p k)
                    = Inr (vary (?B\<lparr>u_sides := sd\<rparr>) (overlay ?N cs) p' k)"
      if "map length cs = ?shp" for cs p k
    proof -
      have "map length (overlay Mp cs) = ?shp" using that by simp
      with ok show ?thesis unfolding NN [symmetric] by blast
    qed
    from run [of ?cs0 "u_pos_int s" "colors s"] obtain p1 where
      c1: "cast_rays ?cols (vary ?B (overlay Mp ?cs0) (u_pos_int s) (colors s))
           = Inr (vary (?B\<lparr>u_sides := sd\<rparr>) ?C1 p1 (colors s))"
      by auto
    from assms have len: "length ?C1 = 2 * height s"
      and s1: "s1 = vary (?B\<lparr>u_sides := sd\<rparr>) ?C1 p1 (pack_colors ?C1)"
      unfolding r1 c1
      by (auto simp: bind_def prepare_rays_fields vary_def split: if_splits)
    have f1: "u_colors s1 = ?C1" "colors s1 = pack_colors ?C1" "width s1 = width s"
      "height s1 = height s" "ceiling_tex s1 = ceiling_tex s" "floor_tex s1 = floor_tex s"
      "ceiling_color s1 = ceiling_color s" "floor_color s1 = floor_color s"
      by (simp_all add: s1 prepare_rays_fields vary_def)
    have p1: "prime_colors s1 = overlay Mp ?C1"
      by (rule Mp [of s1, unfolded f1(1)]) (simp_all add: f1)
    have prep: "prepare_rays (s1\<lparr>u_colors := overlay Mp ?C1\<rparr>)
                = vary ?B (overlay Mp ?C1) p1 (pack_colors ?C1)"
      unfolding s1 by (rule prepare_rays_vary(1))
    have shp1: "map length ?C1 = ?shp" by simp
    from run [OF shp1, of p1 "pack_colors ?C1"] obtain p2 where
      c2: "cast_rays ?cols (vary ?B (overlay Mp ?C1) p1 (pack_colors ?C1))
           = Inr (vary (?B\<lparr>u_sides := sd\<rparr>) (overlay ?N ?C1) p2 (pack_colors ?C1))"
      by auto
    have idem: "overlay ?N ?C1 = ?C1" by (rule overlay_idem)
    let ?s2 = "vary (?B\<lparr>u_sides := sd\<rparr>) ?C1 p2 (pack_colors ?C1)"
    have "render s1 = Inr (?s2\<lparr>colors := pack_colors ?C1\<rparr>)"
      unfolding render_def p1 prep f1(3) c2 idem
      using len by (simp add: bind_def prepare_rays_fields vary_def)
    moreover have "u_colors (?s2\<lparr>colors := pack_colors ?C1\<rparr>) = u_colors s1"
      "colors (?s2\<lparr>colors := pack_colors ?C1\<rparr>) = colors s1"
      by (simp_all add: f1)
    ultimately show ?thesis by blast
  qed
qed

text \<open>The first frame of the long corridor, rendered again.\<close>

theorem render_idempotent_witness:
  "\<exists>s1 s2. frame1 = Inr s1 \<and> render s1 = Inr s2 \<and> u_colors s2 = u_colors s1
     \<and> colors s2 = colors s1"
proof -
  have "\<exists>s1. frame1 = Inr s1"
    unfolding frame_defs by (simp add: eval_defs)
  then obtain s1 where ok: "frame1 = Inr s1" ..
  then have "render (long_corridor_view (43 / 2, 3 / 2)) = Inr s1"
    by (simp add: frame1_def)
  from render_idempotent [OF this] ok show ?thesis by blast
qed

text \<open>
  C4. A frame should depend on the map, the camera, the textures and the size only,
  with the buffer filled anew by every frame. With a texture for the ceiling it is not
  (lines 237 to 241 fill the floor's half only), and a frame can depend on the one
  before: after the first frame of the long corridor, with the camera moved to the
  other end, the object has the setting of a new one there, and the two render
  different buffers. The new one's column without a hit keeps the initial \<open>(0, 0, 0)\<close>
  in its upper half, the other one's the wall of the frame before.
\<close>

theorem render_depends_on_previous_frame:
  "map_sum id setting (bind frame1 (\<lambda>s. Inr (s\<lparr>camera_pos := (3 / 2, 3 / 2)\<rparr>)))
     = Inr (setting (long_corridor_view (3 / 2, 3 / 2)))
   \<and> map_sum id u_colors (render (long_corridor_view (3 / 2, 3 / 2)))
     = Inr [[(0, 0, 0)], [(0, 0, 0)], [(2, 2, 2)], [(2, 2, 2)]]
   \<and> map_sum id u_colors frame2 \<noteq> map_sum id u_colors (render (long_corridor_view (3 / 2, 3 / 2)))"
proof -
  have a: "map_sum id setting (bind frame1 (\<lambda>s. Inr (s\<lparr>camera_pos := (3 / 2, 3 / 2)\<rparr>)))
     = Inr (setting (long_corridor_view (3 / 2, 3 / 2)))"
    unfolding frame_defs setting_def by (simp add: eval_defs)
  have b: "map_sum id u_colors (render (long_corridor_view (3 / 2, 3 / 2)))
     = Inr [[(0, 0, 0)], [(0, 0, 0)], [(2, 2, 2)], [(2, 2, 2)]]"
    unfolding frame_defs by (simp add: eval_defs)
  have c: "map_sum id u_colors frame2
     = Inr [[(darken (1 / 2) 200, 0, 0)], [(darken (1 / 2) 200, 0, 0)], [(2, 2, 2)], [(2, 2, 2)]]"
    unfolding frame_defs by (simp add: eval_defs)
  have "darken (1 / 2) 200 \<noteq> 0" using darken_near by arith
  then show ?thesis unfolding a b c by simp
qed

end
